theory Spec2Isabelle
  imports Main "HOL-Library.Sublist" "HOL-Library.Code_Target_Nat"
begin

section \<open>JavaScript strings\<close>

text \<open>
  A JavaScript string is a sequence of UTF-16 code units; \<open>length\<close>, \<open>includes\<close>,
  \<open>indexOf\<close> and \<open>substring\<close> all count code units. String literals of the source that
  are pure ASCII are written \<open>ascii ''...''\<close>; the Vietnamese literals are written as
  their code units (all of them are in NFC form in the source files).
\<close>

type_synonym jsstring = "nat list"

definition ascii :: "string \<Rightarrow> jsstring" where
  "ascii s = map of_char s"

fun startsWith :: "'a list \<Rightarrow> 'a list \<Rightarrow> bool" where
  "startsWith _ [] = True"
| "startsWith [] (_ # _) = False"
| "startsWith (x # xs) (p # ps) = (x = p \<and> startsWith xs ps)"

text \<open>\<open>s.includes(p)\<close>: \<open>p\<close> occurs in \<open>s\<close> as a contiguous run of code units.\<close>

fun js_includes :: "'a list \<Rightarrow> 'a list \<Rightarrow> bool" where
  "js_includes [] p = (p = [])"
| "js_includes (x # xs) p = (startsWith (x # xs) p \<or> js_includes xs p)"


text \<open>
  \<open>s.substring(s.indexOf(p))\<close> for a \<open>p\<close> that occurs in \<open>s\<close>: the suffix of \<open>s\<close> that
  starts at the first occurrence of \<open>p\<close>.
\<close>

fun fromIndexOf :: "'a list \<Rightarrow> 'a list \<Rightarrow> 'a list" where
  "fromIndexOf [] p = []"
| "fromIndexOf (x # xs) p = (if startsWith (x # xs) p then x # xs else fromIndexOf xs p)"

text \<open>\<open>s.substring(a, b)\<close> for \<open>a \<le> b\<close>.\<close>

definition substring :: "'a list \<Rightarrow> nat \<Rightarrow> nat \<Rightarrow> 'a list" where
  "substring s a b = take (b - a) (drop a s)"

text \<open>
  The code units that \<open>trim()\<close> removes and that \<open>\s\<close> matches (WhiteSpace and
  LineTerminator of ECMA-262).
\<close>

definition isWhiteSpace :: "nat \<Rightarrow> bool" where
  "isWhiteSpace c \<longleftrightarrow>
     c \<in> {9, 10, 11, 12, 13, 32, 160, 5760, 8232, 8233, 8239, 8287, 12288, 65279}
     \<or> (8192 \<le> c \<and> c \<le> 8202)"

definition trim :: "jsstring \<Rightarrow> jsstring" where
  "trim s = rev (dropWhile isWhiteSpace (rev (dropWhile isWhiteSpace s)))"

text \<open>The decimal text of an integer (\<open>String(n)\<close>, template literals).\<close>

fun natDigits :: "nat \<Rightarrow> jsstring" where
  "natDigits n = (if n < 10 then [48 + n] else natDigits (n div 10) @ [48 + n mod 10])"

definition intToString :: "int \<Rightarrow> jsstring" where
  "intToString i = (if i < 0 then 45 # natDigits (nat (- i)) else natDigits (nat i))"

text \<open>\<open>xs.join(sep)\<close>\<close>

fun joinWith :: "jsstring \<Rightarrow> jsstring list \<Rightarrow> jsstring" where
  "joinWith sep [] = []"
| "joinWith sep [x] = x"
| "joinWith sep (x # y # ys) = x @ sep @ joinWith sep (y # ys)"

section \<open>JSON values and the JavaScript library\<close>

text \<open>
  The values \<open>JSON.parse\<close> produces. An object is the list of its own properties in
  insertion order; numbers are the integer-valued ones (other doubles are outside the model).
\<close>

datatype json =
    JNull
  | JBool bool
  | JNum int
  | JStr jsstring
  | JArr "json list"
  | JObj "(jsstring \<times> json) list"

text \<open>
  Built-ins of the JavaScript runtime that the repository calls but does not define are
  parameters of the model: \<open>String.prototype.toLowerCase\<close>,
  \<open>String.prototype.normalize('NFD')\<close>, \<open>JSON.parse\<close> (\<open>None\<close> when it throws a
  \<open>SyntaxError\<close>), \<open>JSON.stringify(v, null, 2)\<close>, and the message texts of the
  \<open>SyntaxError\<close> that \<open>JSON.parse\<close> throws on a text and of the \<open>TypeError\<close> that reading
  a property of \<open>undefined\<close> throws. Every general theorem below holds for all such
  functions.
\<close>

record jslib =
  toLowerCase :: "jsstring \<Rightarrow> jsstring"
  normalizeNFD :: "jsstring \<Rightarrow> jsstring"
  JSON_parse :: "jsstring \<Rightarrow> json option"
  JSON_stringify2 :: "json \<Rightarrow> jsstring"
  syntaxErrorMessage :: "jsstring \<Rightarrow> jsstring"
  typeErrorMessage :: "jsstring \<Rightarrow> jsstring"

section \<open>Session Context Store (src/agent/session-manager.js)\<close>

text \<open>
  One entry of the \<open>sessions\<close> map. Every entry is written by \<open>setToken\<close>, which sets all
  five fields. In the source a field is tested by truthiness: the token is falsy when it is
  the empty string, the expiry when it is \<open>0\<close>. Times are milliseconds (\<open>Date.now()\<close>).
\<close>

record session =
  token :: jsstring
  userId :: jsstring
  expiresAt :: int
  refreshToken :: "jsstring option"
  loginTime :: int

record sessionManager =
  sessions :: "jsstring \<rightharpoonup> session"

definition defaultSessionId :: jsstring where
  "defaultSessionId = ascii ''default''"

text \<open>\<open>const sid = sessionId || this.defaultSessionId\<close>: \<open>null\<close> and \<open>''\<close> are falsy.\<close>

definition sidOf :: "jsstring option \<Rightarrow> jsstring" where
  "sidOf sessionId =
     (case sessionId of None \<Rightarrow> defaultSessionId
      | Some s \<Rightarrow> if s = [] then defaultSessionId else s)"

record additionalData =
  expiresIn :: "int option"
  newRefreshToken :: "jsstring option"

definition noAdditionalData :: additionalData where
  "noAdditionalData = \<lparr>expiresIn = None, newRefreshToken = None\<rparr>"

definition setToken ::
  "int \<Rightarrow> sessionManager \<Rightarrow> jsstring \<Rightarrow> jsstring \<Rightarrow> jsstring option \<Rightarrow> additionalData
     \<Rightarrow> sessionManager" where
  "setToken now sm tok uid sessionId ad =
     (let sid = sidOf sessionId;
          secs = (case expiresIn ad of None \<Rightarrow> 3600
                  | Some n \<Rightarrow> if n = 0 then 3600 else n);
          rt = (case newRefreshToken ad of None \<Rightarrow> None
                | Some r \<Rightarrow> if r = [] then None else Some r)
      in sm\<lparr>sessions := (sessions sm)(sid \<mapsto>
            \<lparr>token = tok, userId = uid, expiresAt = now + secs * 1000,
             refreshToken = rt, loginTime = now\<rparr>)\<rparr>)"

definition clearSession :: "sessionManager \<Rightarrow> jsstring option \<Rightarrow> sessionManager" where
  "clearSession sm sessionId =
     (let sid = sidOf sessionId
      in if sessions sm sid \<noteq> None then sm\<lparr>sessions := (sessions sm)(sid := None)\<rparr> else sm)"

definition clearAllSessions :: "sessionManager \<Rightarrow> sessionManager" where
  "clearAllSessions sm = sm\<lparr>sessions := Map.empty\<rparr>"

text \<open>
  \<open>getToken\<close> reads the clock once (\<open>now\<close>). It returns the token, or \<open>None\<close> for
  \<open>null\<close>, together with the store, which it changes when it evicts an expired session.
\<close>

definition getToken ::
  "int \<Rightarrow> sessionManager \<Rightarrow> jsstring option \<Rightarrow> jsstring option \<times> sessionManager" where
  "getToken now sm sessionId =
     (let sid = sidOf sessionId
      in case sessions sm sid of
           None \<Rightarrow> (None, sm)
         | Some s \<Rightarrow>
             if token s = [] then (None, sm)
             else if expiresAt s \<noteq> 0 \<and> now > expiresAt s
               then (None, clearSession sm (Some sid))
             else (Some (token s), sm))"

record sessionContext =
  ctxSessionId :: jsstring
  isAuthenticated :: bool
  ctxToken :: "jsstring option"
  ctxUserId :: "jsstring option"
  ctxExpiresAt :: "int option"
  ctxRefreshToken :: "jsstring option"

text \<open>
  \<open>getSessionContext\<close> reads the clock twice: once for \<open>isAuthenticated\<close> (\<open>t1\<close>) and once
  inside the nested \<open>getToken\<close> (\<open>t2\<close>), in that order.
\<close>

definition getSessionContext ::
  "int \<Rightarrow> int \<Rightarrow> sessionManager \<Rightarrow> jsstring option \<Rightarrow> sessionContext \<times> sessionManager" where
  "getSessionContext t1 t2 sm sessionId =
     (let sid = sidOf sessionId
      in case sessions sm sid of
           None \<Rightarrow>
             (\<lparr>ctxSessionId = sid, isAuthenticated = False, ctxToken = None, ctxUserId = None,
               ctxExpiresAt = None, ctxRefreshToken = None\<rparr>, sm)
         | Some s \<Rightarrow>
             (let auth = (token s \<noteq> [] \<and> (expiresAt s = 0 \<or> t1 \<le> expiresAt s));
                  (tok, sm') = getToken t2 sm (Some sid)
              in (\<lparr>ctxSessionId = sid, isAuthenticated = auth, ctxToken = tok,
                    ctxUserId = Some (userId s), ctxExpiresAt = Some (expiresAt s),
                    ctxRefreshToken = refreshToken s\<rparr>, sm')))"

section \<open>Tool Catalog Filter (src/agent/tool-filter.js)\<close>

text \<open>
  A tool descriptor as the tool backend lists it: its name, its description and the
  parameters of its input schema (name, type, description) with the names of the required
  ones.
\<close>

record tool =
  name :: jsstring
  description :: jsstring
  schemaProperties :: "(jsstring \<times> jsstring \<times> jsstring) list"
  schemaRequired :: "jsstring list"

datatype category = Auth | House | Room | Tenant | Contract | Service | Invoice | User | Other

text \<open>The keyword table, in the order of \<open>Object.entries(TOOL_KEYWORDS)\<close>.\<close>

definition TOOL_KEYWORDS :: "(category \<times> jsstring list) list" where
  "TOOL_KEYWORDS =
    [(Auth,
       [ascii ''login'',
        [273, 259] @ ascii ''ng nh'' @ [7853] @ ascii ''p'',
        [273, 259] @ ascii ''ng k'' @ [253],
        ascii ''register'',
        ascii ''logout'',
        ascii ''tho'' @ [225] @ ascii ''t'',
        ascii ''current user'',
        ascii ''ng'' @ [432, 7901] @ ascii ''i d'' @ [249] @ ascii ''ng hi'' @ [7879] @ ascii ''n t'' @ [7841] @ ascii ''i'',
        ascii ''token'']),
     (House,
       [ascii ''nh'' @ [224],
        ascii ''house'',
        ascii ''building'',
        ascii ''t'' @ [242] @ ascii ''a nh'' @ [224],
        ascii ''d'' @ [227] @ ascii ''y nh'' @ [224]]),
     (Room,
       [ascii ''ph'' @ [242] @ ascii ''ng'',
        ascii ''room'',
        ascii ''tr'' @ [7889] @ ascii ''ng'',
        ascii ''available'',
        ascii ''vacant'',
        ascii ''empty'']),
     (Tenant,
       [ascii ''kh'' @ [225] @ ascii ''ch'',
        ascii ''tenant'',
        ascii ''ng'' @ [432, 7901] @ ascii ''i thu'' @ [234],
        ascii ''c'' @ [432] @ ascii '' d'' @ [226] @ ascii ''n'']),
     (Contract,
       [ascii ''h'' @ [7907] @ ascii ''p '' @ [273, 7891] @ ascii ''ng'',
        ascii ''contract'',
        ascii ''thu'' @ [234]]),
     (Service,
       [ascii ''d'' @ [7883] @ ascii ''ch v'' @ [7909],
        ascii ''service'',
        ascii ''ti'' @ [7879] @ ascii ''n '' @ [237] @ ascii ''ch'',
        ascii ''utility'']),
     (Invoice,
       [ascii ''h'' @ [243] @ ascii ''a '' @ [273, 417] @ ascii ''n'',
        ascii ''invoice'',
        ascii ''bill'',
        ascii ''thanh to'' @ [225] @ ascii ''n'',
        ascii ''payment'']),
     (User,
       [ascii ''user'',
        ascii ''ng'' @ [432, 7901] @ ascii ''i d'' @ [249] @ ascii ''ng'',
        ascii ''t'' @ [224] @ ascii ''i kho'' @ [7843] @ ascii ''n'',
        ascii ''account''])]"

text \<open>
  \<open>normalize\<close>: lower-case, decompose (NFD), delete the combining marks
  \<open>U+0300 .. U+036F\<close>, replace \<open>U+0111\<close> (d with stroke) by \<open>d\<close>.
\<close>

definition normalize :: "jslib \<Rightarrow> jsstring \<Rightarrow> jsstring" where
  "normalize L text =
     map (\<lambda>c. if c = 273 then 100 else c)
       (filter (\<lambda>c. \<not> (768 \<le> c \<and> c \<le> 879)) (normalizeNFD L (toLowerCase L text)))"

definition getToolCategory :: "jsstring \<Rightarrow> category" where
  "getToolCategory toolName =
     (if js_includes toolName (ascii ''login'') \<or> js_includes toolName (ascii ''register'')
         \<or> js_includes toolName (ascii ''auth'') \<or> js_includes toolName (ascii ''refresh_token'')
      then Auth
      else if js_includes toolName (ascii ''house'') then House
      else if js_includes toolName (ascii ''room'')
              \<and> \<not> js_includes toolName (ascii ''room_service'') then Room
      else if js_includes toolName (ascii ''tenant'') then Tenant
      else if js_includes toolName (ascii ''contract'') then Contract
      else if js_includes toolName (ascii ''service'')
              \<or> js_includes toolName (ascii ''room_service'') then Service
      else if js_includes toolName (ascii ''invoice'')
              \<or> js_includes toolName (ascii ''payment'') then Invoice
      else if js_includes toolName (ascii ''user'')
              \<or> js_includes toolName (ascii ''password'') then User
      else Other)"

text \<open>
  The categories of which some keyword occurs in the normalized message, in table order
  (the loop over \<open>Object.entries\<close> adding to a \<open>Set\<close>).
\<close>

definition matchedCategories :: "jslib \<Rightarrow> jsstring \<Rightarrow> category list" where
  "matchedCategories L userMessage =
     (let norm = normalize L userMessage
      in map fst (filter (\<lambda>(c, keywords). list_ex (\<lambda>kw. js_includes norm (normalize L kw)) keywords)
                    TOOL_KEYWORDS))"

definition defaultCategories :: "category list" where
  "defaultCategories = [House, Room, Tenant, Invoice]"

definition detectRelevantCategories :: "jslib \<Rightarrow> jsstring \<Rightarrow> category list" where
  "detectRelevantCategories L userMessage =
     (let relevantCategories = matchedCategories L userMessage
      in if length relevantCategories = 0 then defaultCategories else relevantCategories)"

text \<open>
  \<open>new Map(pairs)\<close> calls \<open>set\<close> for each pair in turn: a new key is appended, a key
  already present keeps its position and takes the new value. \<open>values()\<close> iterates in
  that order.
\<close>

fun mapSet :: "('k \<times> 'v) list \<Rightarrow> 'k \<Rightarrow> 'v \<Rightarrow> ('k \<times> 'v) list" where
  "mapSet [] k v = [(k, v)]"
| "mapSet ((k', v') # m) k v = (if k' = k then (k', v) # m else (k', v') # mapSet m k v)"

definition newMap :: "('k \<times> 'v) list \<Rightarrow> ('k \<times> 'v) list" where
  "newMap pairs = foldl (\<lambda>m (k, v). mapSet m k v) [] pairs"

definition uniqueByName :: "tool list \<Rightarrow> tool list" where
  "uniqueByName relevantTools = map snd (newMap (map (\<lambda>t. (name t, t)) relevantTools))"

text \<open>
  \<open>maxTools\<close> is a count (the callers pass \<open>15\<close>; the default of the parameter is
  \<open>25\<close>), so \<open>slice(0, maxTools)\<close> is \<open>take\<close>.
\<close>

definition filterRelevantTools :: "jslib \<Rightarrow> tool list \<Rightarrow> jsstring \<Rightarrow> nat \<Rightarrow> tool list" where
  "filterRelevantTools L allTools userMessage maxTools =
     (let relevantCategories = detectRelevantCategories L userMessage;
          relevantTools = filter (\<lambda>t. getToolCategory (name t) \<in> set relevantCategories) allTools;
          uniqueTools = uniqueByName relevantTools;
          finalTools = take maxTools uniqueTools
      in finalTools)"

text \<open>
  The elements of a list in the order of their first appearance, each once; \<open>seen\<close> are
  the elements already passed.
\<close>

fun firstOccs :: "'a list \<Rightarrow> 'a list \<Rightarrow> 'a list" where
  "firstOccs seen [] = []"
| "firstOccs seen (x # xs) =
     (if x \<in> set seen then firstOccs seen xs else x # firstOccs (x # seen) xs)"

definition firstOccurrences :: "'a list \<Rightarrow> 'a list" where
  "firstOccurrences xs = firstOccs [] xs"

section \<open>Tool-Call Extractor (src/agent/ollama-client.js)\<close>

subsection \<open>Property access and truthiness on parsed JSON\<close>

text \<open>
  \<open>v.key\<close> for the keys the extractor reads (\<open>tool\<close>, \<open>name\<close>, \<open>function\<close>, \<open>args\<close>,
  \<open>arguments\<close>, \<open>parameters\<close>): an own property of an object, \<open>undefined\<close> (\<open>None\<close>) on
  arrays and primitives. On \<open>null\<close> the access throws; the callers below treat that case
  themselves.
\<close>

fun getProp :: "json \<Rightarrow> jsstring \<Rightarrow> json option" where
  "getProp (JObj kvs) k = map_of kvs k"
| "getProp _ k = None"

fun truthy :: "json \<Rightarrow> bool" where
  "truthy JNull = False"
| "truthy (JBool b) = b"
| "truthy (JNum n) = (n \<noteq> 0)"
| "truthy (JStr s) = (s \<noteq> [])"
| "truthy (JArr _) = True"
| "truthy (JObj _) = True"

text \<open>\<open>a || b\<close> on possibly undefined values.\<close>

definition orElse :: "json option \<Rightarrow> json option \<Rightarrow> json option" where
  "orElse a b = (case a of Some v \<Rightarrow> if truthy v then a else b | None \<Rightarrow> b)"

record toolCall =
  tcName :: jsstring
  tcArguments :: json

subsection \<open>Cleaning the reply\<close>

definition fence :: jsstring where
  "fence = ascii ''```''"

text \<open>\<open>(?:json)?\<close> under the \<open>i\<close> flag: the four letters in either case.\<close>

fun startsWithJson :: "jsstring \<Rightarrow> bool" where
  "startsWithJson (c1 # c2 # c3 # c4 # _) =
     ((c1 = 106 \<or> c1 = 74) \<and> (c2 = 115 \<or> c2 = 83) \<and> (c3 = 111 \<or> c3 = 79)
      \<and> (c4 = 110 \<or> c4 = 78))"
| "startsWithJson _ = False"

text \<open>\<open>.replace(/^```(?:json)?\s*/i, '')\<close>\<close>

definition stripLeadingFence :: "jsstring \<Rightarrow> jsstring" where
  "stripLeadingFence s =
     (if startsWith s fence
      then (let r = drop 3 s; r' = (if startsWithJson r then drop 4 r else r)
            in dropWhile isWhiteSpace r')
      else s)"

text \<open>
  \<open>.replace(/\s*```\s*$/i, '')\<close>: the match ends at the end of the string, so its fence
  is the last three code units before the trailing white space, and the leftmost match
  starts at the beginning of the white space run before that fence.
\<close>

definition stripTrailingFence :: "jsstring \<Rightarrow> jsstring" where
  "stripTrailingFence s =
     (let t = dropWhile isWhiteSpace (rev s)
      in if startsWith t fence then rev (dropWhile isWhiteSpace (drop 3 t)) else s)"

definition cleanContent :: "jsstring \<Rightarrow> jsstring" where
  "cleanContent content = trim (stripTrailingFence (stripLeadingFence (trim content)))"

subsection \<open>Balanced brace scanning\<close>

text \<open>
  The loop of \<open>extractBalancedJsonObjects\<close>: \<open>i\<close> is the index of the next code unit,
  \<open>depth\<close> the running depth (it goes negative on an unmatched closing brace) and
  \<open>start\<close> the index of the pending opening brace (\<open>None\<close> for \<open>-1\<close>).
\<close>

fun scanBraces :: "jsstring \<Rightarrow> jsstring \<Rightarrow> nat \<Rightarrow> int \<Rightarrow> nat option \<Rightarrow> jsstring list" where
  "scanBraces text [] i depth start = []"
| "scanBraces text (c # cs) i depth start =
     (if c = 123 then
        scanBraces text cs (i + 1) (depth + 1) (if depth = 0 then Some i else start)
      else if c = 125 then
        (case start of
           Some st \<Rightarrow>
             if depth - 1 = 0
             then substring text st (i + 1) # scanBraces text cs (i + 1) (depth - 1) None
             else scanBraces text cs (i + 1) (depth - 1) start
         | None \<Rightarrow> scanBraces text cs (i + 1) (depth - 1) start)
      else scanBraces text cs (i + 1) depth start)"

definition extractBalancedJsonObjects :: "jsstring \<Rightarrow> jsstring list" where
  "extractBalancedJsonObjects text = scanBraces text text 0 0 None"

subsection \<open>The three strategies\<close>

text \<open>
  The body shared by strategies 1 and 2, applied to a parsed value that is not \<open>null\<close>:
  pick the tool name and the arguments, and return the call when the name is a known
  tool. A string-valued argument field is parsed as nested JSON; when that throws, the
  surrounding \<open>try\<close> swallows it and the strategy yields nothing (\<open>None\<close>).
\<close>

definition callFromParsed :: "jslib \<Rightarrow> jsstring list \<Rightarrow> json \<Rightarrow> toolCall option" where
  "callFromParsed L knownToolNames parsed =
     (let toolName = orElse (orElse (getProp parsed (ascii ''tool'')) (getProp parsed (ascii ''name'')))
                        (getProp parsed (ascii ''function''));
          args = (case orElse (orElse (orElse (getProp parsed (ascii ''args''))
                                   (getProp parsed (ascii ''arguments'')))
                                   (getProp parsed (ascii ''parameters''))) (Some (JObj [])) of
                    Some a \<Rightarrow> a | None \<Rightarrow> JObj [])
      in case toolName of
           Some (JStr nm) \<Rightarrow>
             if nm \<noteq> [] \<and> nm \<in> set knownToolNames
             then (case args of
                     JStr a \<Rightarrow> (case JSON_parse L a of
                                   None \<Rightarrow> None
                                 | Some v \<Rightarrow> Some \<lparr>tcName = nm, tcArguments = v\<rparr>)
                   | _ \<Rightarrow> Some \<lparr>tcName = nm, tcArguments = args\<rparr>)
             else None
         | _ \<Rightarrow> None)"

text \<open>
  The tool name the shared body reads from a parsed value
  (\<open>parsed.tool || parsed.name || parsed.function\<close>).
\<close>

definition toolNameOf :: "json \<Rightarrow> json option" where
  "toolNameOf parsed =
     orElse (orElse (getProp parsed (ascii ''tool'')) (getProp parsed (ascii ''name'')))
       (getProp parsed (ascii ''function''))"

text \<open>Strategy 1: the whole cleaned text is JSON (\<open>parsed && typeof parsed === 'object'\<close>).\<close>

definition strategy1 :: "jslib \<Rightarrow> jsstring \<Rightarrow> jsstring list \<Rightarrow> toolCall option" where
  "strategy1 L cleaned knownToolNames =
     (case JSON_parse L cleaned of
        None \<Rightarrow> None
      | Some parsed \<Rightarrow>
          (case parsed of
             JObj _ \<Rightarrow> callFromParsed L knownToolNames parsed
           | JArr _ \<Rightarrow> callFromParsed L knownToolNames parsed
           | _ \<Rightarrow> None))"

text \<open>
  Strategy 2: the balanced candidates in order. A candidate that does not parse, that
  parses to \<open>null\<close> (the property access throws) or that names no known tool is skipped.
\<close>

fun firstCall :: "jslib \<Rightarrow> jsstring list \<Rightarrow> jsstring list \<Rightarrow> toolCall option" where
  "firstCall L knownToolNames [] = None"
| "firstCall L knownToolNames (jsonStr # rest) =
     (case (case JSON_parse L jsonStr of
              None \<Rightarrow> None
            | Some JNull \<Rightarrow> None
            | Some parsed \<Rightarrow> callFromParsed L knownToolNames parsed) of
        Some c \<Rightarrow> Some c
      | None \<Rightarrow> firstCall L knownToolNames rest)"

definition strategy2 :: "jslib \<Rightarrow> jsstring \<Rightarrow> jsstring list \<Rightarrow> toolCall option" where
  "strategy2 L cleaned knownToolNames =
     firstCall L knownToolNames (extractBalancedJsonObjects cleaned)"

text \<open>
  \<open>after.match(/\{[\s\S]*\}/)\<close>: from the first opening brace to the last closing brace
  behind it; no match when either is missing.
\<close>

definition matchBraces :: "jsstring \<Rightarrow> jsstring option" where
  "matchBraces after =
     (let a = dropWhile (\<lambda>c. c \<noteq> 123) after;
          m = rev (dropWhile (\<lambda>c. c \<noteq> 125) (rev a))
      in if m = [] then None else Some m)"

text \<open>The arguments strategy 3 attaches to a tool name found literally in the text.\<close>

definition argsAfter :: "jslib \<Rightarrow> jsstring \<Rightarrow> jsstring \<Rightarrow> json" where
  "argsAfter L cleaned toolName =
     (let after = fromIndexOf cleaned toolName
      in case matchBraces after of
           None \<Rightarrow> JObj []
         | Some jsonMatch \<Rightarrow>
             (case JSON_parse L jsonMatch of
                None \<Rightarrow> JObj []
              | Some JNull \<Rightarrow> JObj []
              | Some args \<Rightarrow>
                  if getProp args (ascii ''tool'') = Some (JStr toolName)
                     \<or> getProp args (ascii ''name'') = Some (JStr toolName)
                  then (case orElse (orElse (getProp args (ascii ''args''))
                                        (getProp args (ascii ''arguments''))) (Some (JObj [])) of
                          Some a \<Rightarrow> a | None \<Rightarrow> JObj [])
                  else args))"

fun strategy3 :: "jslib \<Rightarrow> jsstring \<Rightarrow> jsstring list \<Rightarrow> toolCall option" where
  "strategy3 L cleaned [] = None"
| "strategy3 L cleaned (toolName # rest) =
     (if js_includes cleaned toolName
      then Some \<lparr>tcName = toolName, tcArguments = argsAfter L cleaned toolName\<rparr>
      else strategy3 L cleaned rest)"

definition parseToolCallFromContent :: "jslib \<Rightarrow> jsstring \<Rightarrow> jsstring list \<Rightarrow> toolCall option" where
  "parseToolCallFromContent L content knownToolNames =
     (if content = [] \<or> length knownToolNames = 0 then None
      else let cleaned = cleanContent content
           in case strategy1 L cleaned knownToolNames of
                Some c \<Rightarrow> Some c
              | None \<Rightarrow>
                  (case strategy2 L cleaned knownToolNames of
                     Some c \<Rightarrow> Some c
                   | None \<Rightarrow> strategy3 L cleaned knownToolNames))"


section \<open>External services\<close>

text \<open>
  The model backend and the tool backend are outside the repository. Each is a function
  of the trace of all requests made so far and of the request, so that the same request
  may be answered differently at different times. \<open>Inl\<close> carries the message of the
  error with which the HTTP call fails.
\<close>

datatype role = System | UserRole | Assistant

record chatMessage =
  msgRole :: role
  msgContent :: jsstring

text \<open>The body of \<open>POST /chat\<close>; the temperature is given in tenths.\<close>

record chatRequest =
  reqMessages :: "chatMessage list"
  reqTemperature :: nat

text \<open>
  A tool call as the orchestrator receives it: the extractor's (an id and a parsed
  argument value) or a native one of the model (\<open>message.tool_calls\<close>), whose \<open>function\<close>
  or whose name may be missing and whose arguments are a string, another value or
  undefined (\<open>None\<close>).
\<close>

record fnCall =
  fnName :: jsstring
  fnArguments :: "json option"

record llmToolCall =
  callId :: "jsstring option"
  callFunction :: "fnCall option"

text \<open>\<open>response.data.message\<close>; a missing \<open>content\<close> is the empty string.\<close>

record rawMessage =
  rawContent :: jsstring
  rawToolCalls :: "llmToolCall list"

datatype event =
    EvChat chatRequest
  | EvListTools
  | EvInvoke jsstring json "(jsstring \<times> jsstring) list"

record world =
  ollamaChat :: "event list \<Rightarrow> chatRequest \<Rightarrow> jsstring + rawMessage option"
  mcpListTools :: "event list \<Rightarrow> jsstring + tool list"
  mcpInvoke :: "event list \<Rightarrow> jsstring \<Rightarrow> json \<Rightarrow> (jsstring \<times> jsstring) list \<Rightarrow> jsstring + json"

section \<open>Tool Invocation Gateway (src/agent/tool-executor.js)\<close>

definition getAvailableTools :: "world \<Rightarrow> event list \<Rightarrow> tool list \<times> event list" where
  "getAvailableTools w tr =
     (case mcpListTools w tr of
        Inr tools \<Rightarrow> (tools, tr @ [EvListTools])
      | Inl err \<Rightarrow> ([], tr @ [EvListTools]))"

definition authHeaders :: "sessionContext \<Rightarrow> (jsstring \<times> jsstring) list" where
  "authHeaders ctx =
     (case ctxToken ctx of
        None \<Rightarrow> []
      | Some t \<Rightarrow>
          if t = [] then []
          else [(ascii ''Authorization'', ascii ''Bearer '' @ t),
                (ascii ''X-User-Id'',
                 (case ctxUserId ctx of
                    None \<Rightarrow> ascii ''anonymous''
                  | Some u \<Rightarrow> if u = [] then ascii ''anonymous'' else u))])"

text \<open>
  \<open>executeMcpTool\<close> never throws: a failing call is returned as
  \<open>{success: false, error}\<close>.
\<close>

definition executeMcpTool ::
  "world \<Rightarrow> jsstring \<Rightarrow> json \<Rightarrow> sessionContext \<Rightarrow> event list \<Rightarrow> json \<times> event list" where
  "executeMcpTool w toolName args ctx tr =
     (let headers = authHeaders ctx
      in case mcpInvoke w tr toolName args headers of
           Inr data \<Rightarrow> (data, tr @ [EvInvoke toolName args headers])
         | Inl msg \<Rightarrow>
             (JObj [(ascii ''success'', JBool False), (ascii ''error'', JStr msg)],
              tr @ [EvInvoke toolName args headers]))"

section \<open>The model call (callOllamaWithTools, src/agent/ollama-client.js)\<close>

definition toolInstructions :: jsstring where
  "toolInstructions =
     ascii ''INSTRUCTIONS:'' @ [10]
     @ ascii ''- To call a tool, respond ONLY with a JSON object in this ''
     @ ascii ''exact format:'' @ [10] @ ascii ''  {'' @ [34] @ ascii ''tool'' @ [34]
     @ ascii '': '' @ [34] @ ascii ''tool_name'' @ [34] @ ascii '', '' @ [34]
     @ ascii ''args'' @ [34] @ ascii '': {'' @ [34] @ ascii ''param1'' @ [34] @ ascii '': ''
     @ [34] @ ascii ''value1'' @ [34] @ ascii '', '' @ [34] @ ascii ''param2'' @ [34]
     @ ascii '': '' @ [34] @ ascii ''value2'' @ [34] @ ascii ''}}'' @ [10]
     @ ascii ''- Do NOT add any text before or after the JSON.'' @ [10]
     @ ascii ''- Do NOT wrap the JSON in markdown code blocks.'' @ [10]
     @ ascii ''- If you need to call a tool, respond with ONLY the JSON ''
     @ ascii ''object.'' @ [10]
     @ ascii ''- If the user is just chatting (greeting, thanks, etc.) and ''
     @ ascii ''no tool is needed, respond normally with text.''"

text \<open>One line of \<open>paramList\<close> and one entry of \<open>toolDescriptions\<close>.\<close>

definition paramLine :: "jsstring list \<Rightarrow> jsstring \<times> jsstring \<times> jsstring \<Rightarrow> jsstring" where
  "paramLine required p =
     (case p of (k, ty, descr) \<Rightarrow>
        ascii ''      '' @ k @ ascii '': '' @ ty
        @ (if k \<in> set required then ascii '' (required)'' else ascii '' (optional)'')
        @ ascii '' - '' @ descr)"

definition joinLines :: "jsstring list \<Rightarrow> jsstring" where
  "joinLines ls = joinWith [10] ls"

definition toolDescriptionText :: "tool \<Rightarrow> jsstring" where
  "toolDescriptionText t =
     (let paramList = joinLines (map (paramLine (schemaRequired t)) (schemaProperties t))
      in ascii ''  - '' @ name t @ ascii '': '' @ description t
         @ (if paramList = [] then []
            else [10] @ ascii ''    Parameters:'' @ [10] @ paramList))"

definition buildToolCallingPrompt :: "tool list \<Rightarrow> jsstring" where
  "buildToolCallingPrompt tools =
     ascii ''You have access to these tools:'' @ [10] @ joinLines (map toolDescriptionText tools)
     @ [10, 10] @ toolInstructions"

text \<open>The tool prompt is merged into a leading system message or put in front.\<close>

definition messagesWithTools :: "chatMessage list \<Rightarrow> tool list \<Rightarrow> chatMessage list" where
  "messagesWithTools messages availableTools =
     (if length availableTools > 0
      then (case messages of
              [] \<Rightarrow> [\<lparr>msgRole = System, msgContent = buildToolCallingPrompt availableTools\<rparr>]
            | m # ms \<Rightarrow>
                if msgRole m = System
                then \<lparr>msgRole = System,
                      msgContent = msgContent m @ [10, 10] @ buildToolCallingPrompt availableTools\<rparr> # ms
                else \<lparr>msgRole = System, msgContent = buildToolCallingPrompt availableTools\<rparr>
                     # m # ms)
      else messages)"

text \<open>
  The result is the thrown error message (\<open>LLM Error: ...\<close>) or the message with the tool
  calls. \<open>now\<close> is \<open>Date.now()\<close>, used for the id of an extracted call.
\<close>

definition callOllamaWithTools ::
  "jslib \<Rightarrow> world \<Rightarrow> int \<Rightarrow> chatMessage list \<Rightarrow> tool list \<Rightarrow> nat \<Rightarrow> event list
     \<Rightarrow> (jsstring + rawMessage option \<times> llmToolCall list) \<times> event list" where
  "callOllamaWithTools L w now messages availableTools temperature tr =
     (let knownToolNames = map name availableTools;
          requestBody = \<lparr>reqMessages = messagesWithTools messages availableTools,
                         reqTemperature = temperature\<rparr>;
          tr' = tr @ [EvChat requestBody]
      in case ollamaChat w tr requestBody of
           Inl err \<Rightarrow> (Inl (ascii ''LLM Error: '' @ err), tr')
         | Inr message \<Rightarrow>
             (let parsed = (case message of
                              None \<Rightarrow> None
                            | Some m \<Rightarrow>
                                if rawContent m \<noteq> [] \<and> length knownToolNames > 0
                                then parseToolCallFromContent L (rawContent m) knownToolNames
                                else None)
              in case parsed of
                   Some p \<Rightarrow>
                     (Inr (map_option (\<lambda>m. m\<lparr>rawContent := []\<rparr>) message,
                           [\<lparr>callId = Some (ascii ''call_'' @ intToString now),
                             callFunction = Some \<lparr>fnName = tcName p,
                                                  fnArguments = Some (tcArguments p)\<rparr>\<rparr>]),
                      tr')
                 | None \<Rightarrow>
                     (Inr (message,
                           (case message of
                              None \<Rightarrow> []
                            | Some m \<Rightarrow>
                                filter (\<lambda>tc. case callFunction tc of
                                                None \<Rightarrow> False
                                              | Some f \<Rightarrow> fnName f \<noteq> [])
                                  (rawToolCalls m))),
                      tr')))"

section \<open>Agent Orchestrator (src/agent/agent.js)\<close>

subsection \<open>Helpers\<close>

text \<open>
  The letters of the character class of \<open>isNonEnglish\<close>. The class is matched under the
  \<open>i\<close> flag, so their upper-case forms match as well.
\<close>

definition vietLetters :: "nat list" where
  "vietLetters =
    [224, 225, 7841, 7843, 227, 226, 7847, 7845, 7853, 7849, 7851, 259, 7857, 7855, 7863, 7859,
     7861, 232, 233, 7865, 7867, 7869, 234, 7873, 7871, 7879, 7875, 7877, 236, 237, 7883, 7881,
     297, 242, 243, 7885, 7887, 245, 244, 7891, 7889, 7897, 7893, 7895, 417, 7901, 7899, 7907,
     7903, 7905, 249, 250, 7909, 7911, 361, 432, 7915, 7913, 7921, 7917, 7919, 7923, 253, 7925,
     7927, 7929, 273]"

definition vietLettersUpper :: "nat list" where
  "vietLettersUpper =
    [192, 193, 7840, 7842, 195, 194, 7846, 7844, 7852, 7848, 7850, 258, 7856, 7854, 7862, 7858,
     7860, 200, 201, 7864, 7866, 7868, 202, 7872, 7870, 7878, 7874, 7876, 204, 205, 7882, 7880,
     296, 210, 211, 7884, 7886, 213, 212, 7890, 7888, 7896, 7892, 7894, 416, 7900, 7898, 7906,
     7902, 7904, 217, 218, 7908, 7910, 360, 431, 7914, 7912, 7920, 7916, 7918, 7922, 221, 7924,
     7926, 7928, 272]"

definition isNonEnglish :: "jsstring \<Rightarrow> bool" where
  "isNonEnglish text = list_ex (\<lambda>c. c \<in> set vietLetters \<or> c \<in> set vietLettersUpper) text"

definition conversational :: "jsstring list" where
  "conversational =
     [ascii ''xin ch'' @ [224] @ ascii ''o'',
      ascii ''ch'' @ [224] @ ascii ''o b'' @ [7841] @ ascii ''n'',
      ascii ''hello'',
      ascii ''hi '',
      ascii ''hey'',
      ascii ''b'' @ [7841] @ ascii ''n l'' @ [224] @ ascii '' ai'',
      ascii ''who are you'',
      ascii ''b'' @ [7841] @ ascii ''n t'' @ [234] @ ascii ''n g'' @ [236],
      ascii ''c'' @ [7843] @ ascii ''m '' @ [417] @ ascii ''n'',
      ascii ''thank'',
      ascii ''thanks'',
      ascii ''t'' @ [7841] @ ascii ''m bi'' @ [7879] @ ascii ''t'',
      ascii ''goodbye'',
      ascii ''bye'']"

definition isConversationalMessage :: "jslib \<Rightarrow> jsstring \<Rightarrow> bool" where
  "isConversationalMessage L text =
     (let lower = trim (toLowerCase L text)
      in length lower < 40 \<and> list_ex (\<lambda>kw. js_includes lower kw) conversational)"

subsection \<open>State, results and responses\<close>

record historyEntry =
  hRole :: role
  hContent :: jsstring
  hUserId :: "jsstring option"
  hToolsCalled :: "jsstring list option"
  hSessionId :: jsstring
  hTimestamp :: int

record agent =
  systemPrompt :: jsstring
  conversationHistory :: "historyEntry list"
  maxToolCalls :: int

text \<open>
  The constructor: \<open>config.maxToolCalls || 5\<close>, where the configured value is
  \<open>parseInt\<close> of an environment variable (\<open>None\<close> for \<open>NaN\<close>).
\<close>

definition newAgent :: "jsstring \<Rightarrow> int option \<Rightarrow> agent" where
  "newAgent prompt configMaxToolCalls =
     \<lparr>systemPrompt = prompt, conversationHistory = [],
      maxToolCalls = (case configMaxToolCalls of
                        None \<Rightarrow> 5
                      | Some n \<Rightarrow> if n = 0 then 5 else n)\<rparr>"

text \<open>An entry of \<open>toolResults\<close>: with \<open>args\<close> and \<open>result\<close>, or with \<open>error\<close>.\<close>

record toolResult =
  resId :: jsstring
  resName :: jsstring
  resArgs :: "json option"
  resResult :: "json option"
  resError :: "jsstring option"

record agentResponse =
  success :: bool
  response :: jsstring
  toolsCalled :: "jsstring list"
  toolResults :: "toolResult list"
  respUserId :: "jsstring option"
  respSessionId :: jsstring
  respIsAuthenticated :: bool
  respTimestamp :: int

text \<open>\<open>a || b\<close> on strings that may be \<open>null\<close>.\<close>

definition orString :: "jsstring option \<Rightarrow> jsstring option \<Rightarrow> jsstring option" where
  "orString a b = (case a of Some s \<Rightarrow> if s = [] then b else a | None \<Rightarrow> b)"

definition addHistory ::
  "int \<Rightarrow> agent \<Rightarrow> role \<Rightarrow> jsstring \<Rightarrow> jsstring option \<Rightarrow> jsstring option \<Rightarrow> jsstring list
     \<Rightarrow> agent" where
  "addHistory now ag r text sessionId uid called =
     ag\<lparr>conversationHistory := conversationHistory ag @
          [\<lparr>hRole = r, hContent = text,
            hUserId = (case uid of Some u \<Rightarrow> if u = [] then None else Some u | None \<Rightarrow> None),
            hToolsCalled = (if length called > 0 then Some called else None),
            hSessionId = sidOf sessionId,
            hTimestamp = now\<rparr>]\<rparr>"

text \<open>\<open>_buildResponse\<close>; the session context is omitted (\<open>None\<close>) on the error path.\<close>

definition buildResponse ::
  "int \<Rightarrow> bool \<Rightarrow> jsstring \<Rightarrow> jsstring list \<Rightarrow> toolResult list \<Rightarrow> jsstring option
     \<Rightarrow> jsstring option \<Rightarrow> sessionContext option \<Rightarrow> agentResponse" where
  "buildResponse now ok text called results uid sessionId ctx =
     \<lparr>success = ok, response = text, toolsCalled = called, toolResults = results,
      respUserId = uid, respSessionId = sidOf sessionId,
      respIsAuthenticated = (case ctx of None \<Rightarrow> False | Some c \<Rightarrow> isAuthenticated c),
      respTimestamp = now\<rparr>"

subsection \<open>Stage 5: executing the proposed calls\<close>

text \<open>
  One iteration of the loop body. The \<open>try\<close> part reads the name (a \<open>TypeError\<close> when
  \<open>function\<close> is missing), parses string arguments (a \<open>SyntaxError\<close> when that fails) and
  invokes the gateway; the \<open>catch\<close> part records the error. \<open>n\<close> is
  \<open>toolCallsExecuted\<close>.
\<close>

definition executeOne ::
  "jslib \<Rightarrow> world \<Rightarrow> sessionContext \<Rightarrow> nat \<Rightarrow> llmToolCall \<Rightarrow> event list
     \<Rightarrow> toolResult \<times> event list" where
  "executeOne L w ctx n toolCall tr =
     (let rid = (case orString (callId toolCall) None of
                   Some i \<Rightarrow> i
                 | None \<Rightarrow> ascii ''call_'' @ intToString (int n));
          failed = (\<lambda>msg.
            \<lparr>resId = rid,
             resName = (case callFunction toolCall of
                          None \<Rightarrow> ascii ''unknown''
                        | Some f \<Rightarrow> if fnName f = [] then ascii ''unknown'' else fnName f),
             resArgs = None, resResult = None, resError = Some msg\<rparr>)
      in case callFunction toolCall of
           None \<Rightarrow> (failed (typeErrorMessage L (ascii ''name'')), tr)
         | Some f \<Rightarrow>
             (case (case fnArguments f of
                      Some (JStr s) \<Rightarrow>
                        (let text = (if s = [] then ascii ''{}'' else s)
                         in case JSON_parse L text of
                              None \<Rightarrow> Inl (syntaxErrorMessage L text)
                            | Some v \<Rightarrow> Inr v)
                    | Some v \<Rightarrow> Inr (if truthy v then v else JObj [])
                    | None \<Rightarrow> Inr (JObj [])) of
                Inl msg \<Rightarrow> (failed msg, tr)
              | Inr toolArgs \<Rightarrow>
                  (let (result, tr') = executeMcpTool w (fnName f) toolArgs ctx tr
                   in (\<lparr>resId = rid, resName = fnName f, resArgs = Some toolArgs,
                         resResult = Some result, resError = None\<rparr>, tr'))))"

text \<open>
  What the \<open>try\<close> part has in hand when it reaches the gateway call: the tool name and
  the arguments, or the message of the error thrown before that.
\<close>

definition callRequest :: "jslib \<Rightarrow> llmToolCall \<Rightarrow> jsstring + jsstring \<times> json" where
  "callRequest L toolCall =
     (case callFunction toolCall of
        None \<Rightarrow> Inl (typeErrorMessage L (ascii ''name''))
      | Some f \<Rightarrow>
          (case fnArguments f of
             Some (JStr s) \<Rightarrow>
               (let text = (if s = [] then ascii ''{}'' else s)
                in case JSON_parse L text of
                     None \<Rightarrow> Inl (syntaxErrorMessage L text)
                   | Some v \<Rightarrow> Inr (fnName f, v))
           | Some v \<Rightarrow> Inr (fnName f, if truthy v then v else JObj [])
           | None \<Rightarrow> Inr (fnName f, JObj [])))"

text \<open>
  The loop: it breaks as soon as \<open>toolCallsExecuted >= maxToolCalls\<close>; both the
  \<open>try\<close> and the \<open>catch\<close> part push one result and count one execution.
\<close>

fun executeToolCalls ::
  "jslib \<Rightarrow> world \<Rightarrow> sessionContext \<Rightarrow> int \<Rightarrow> llmToolCall list \<Rightarrow> toolResult list \<Rightarrow> nat
     \<Rightarrow> event list \<Rightarrow> toolResult list \<times> event list" where
  "executeToolCalls L w ctx cap [] results executed tr = (results, tr)"
| "executeToolCalls L w ctx cap (toolCall # rest) results executed tr =
     (if int executed \<ge> cap then (results, tr)
      else (let (r, tr') = executeOne L w ctx executed toolCall tr
            in executeToolCalls L w ctx cap rest (results @ [r]) (executed + 1) tr'))"

subsection \<open>The pipeline\<close>

definition friendlyPrompt :: jsstring where
  "friendlyPrompt =
     ascii ''You are a friendly hostel management assistant. Respond in ''
     @ ascii ''the same language as the user.''"

definition greetingText :: jsstring where
  "greetingText =
     ascii ''Xin ch'' @ [224] @ ascii ''o! T'' @ [244] @ ascii ''i l'' @ [224]
     @ ascii '' tr'' @ [7907] @ ascii '' l'' @ [253] @ ascii '' qu'' @ [7843] @ ascii ''n l''
     @ [253] @ ascii '' nh'' @ [224] @ ascii '' tr'' @ [7885] @ ascii ''.''"

definition retryPrompt :: "tool list \<Rightarrow> jsstring" where
  "retryPrompt availableTools =
     ascii ''You MUST call one of these tools: ['' @ joinWith (ascii '', '') (map name availableTools)
     @ ascii '']. Do NOT respond with text. Call the tool now.''"

definition summaryPromptVi :: jsstring where
  "summaryPromptVi =
     ascii ''T'' @ [243] @ ascii ''m t'' @ [7855] @ ascii ''t k'' @ [7871] @ ascii ''t qu''
     @ [7843] @ ascii '' d'' @ [432, 7899] @ ascii ''i '' @ [273, 226] @ ascii ''y b''
     @ [7857] @ ascii ''ng ti'' @ [7871] @ ascii ''ng Vi'' @ [7879] @ ascii ''t, ng''
     @ [7855] @ ascii ''n g'' @ [7885] @ ascii ''n v'' @ [224] @ ascii '' r'' @ [245]
     @ ascii '' r'' @ [224] @ ascii ''ng.''"

definition summaryPromptEn :: jsstring where
  "summaryPromptEn = ascii ''Summarize the following results clearly and concisely.''"

definition doneText :: jsstring where
  "doneText = [272, 227] @ ascii '' x'' @ [7917] @ ascii '' l'' @ [253] @ ascii '' xong.''"

definition sorryVi :: jsstring where
  "sorryVi =
     ascii ''Xin l'' @ [7895] @ ascii ''i, t'' @ [244] @ ascii ''i kh'' @ [244]
     @ ascii ''ng th'' @ [7875] @ ascii '' x'' @ [7917] @ ascii '' l'' @ [253] @ ascii '' y''
     @ [234] @ ascii ''u c'' @ [7847] @ ascii ''u n'' @ [224] @ ascii ''y.''"

definition sorryEn :: jsstring where
  "sorryEn = ascii ''Sorry, I could not process this request.''"

text \<open>\<open>toolResults.map(r => ({tool: r.name, result: r.result}))\<close>; an undefined \<open>result\<close> is dropped.\<close>

definition resultSummary :: "toolResult \<Rightarrow> json" where
  "resultSummary r =
     JObj ((ascii ''tool'', JStr (resName r))
           # (case resResult r of None \<Rightarrow> [] | Some v \<Rightarrow> [(ascii ''result'', v)]))"

definition summaryMessages :: "jslib \<Rightarrow> bool \<Rightarrow> jsstring \<Rightarrow> toolResult list \<Rightarrow> chatMessage list" where
  "summaryMessages L isVietnamese userMessage results =
     [\<lparr>msgRole = System, msgContent = (if isVietnamese then summaryPromptVi else summaryPromptEn)\<rparr>,
      \<lparr>msgRole = UserRole,
       msgContent = ascii ''User asked: '' @ [34] @ userMessage @ [34, 10, 10] @ ascii ''Tool results:''
                    @ [10] @ JSON_stringify2 L (JArr (map resultSummary results))\<rparr>]"

text \<open>\<open>this.conversationHistory.slice(-6)\<close>\<close>

definition lastN :: "nat \<Rightarrow> 'a list \<Rightarrow> 'a list" where
  "lastN n xs = drop (length xs - n) xs"

text \<open>
  The stages of the \<open>try\<close> block of \<open>processMessage\<close>, in state-passing form. A stage
  returns its value, or the message of the error thrown (\<open>Inl\<close>), with the trace.
\<close>

text \<open>Stage 1, the conversational path: one model call without tools.\<close>

definition conversationalRequest :: "jsstring \<Rightarrow> chatRequest" where
  "conversationalRequest userMessage =
     \<lparr>reqMessages = [\<lparr>msgRole = System, msgContent = friendlyPrompt\<rparr>,
                      \<lparr>msgRole = UserRole, msgContent = userMessage\<rparr>],
      reqTemperature = 5\<rparr>"

definition conversationalPath ::
  "jslib \<Rightarrow> world \<Rightarrow> int \<Rightarrow> agent \<Rightarrow> sessionContext \<Rightarrow> event list
     \<Rightarrow> jsstring \<Rightarrow> jsstring option \<Rightarrow> jsstring option
     \<Rightarrow> (jsstring + agentResponse) \<times> agent \<times> event list" where
  "conversationalPath L w now ag ctx tr userMessage uid sessionId =
     (case callOllamaWithTools L w now
             [\<lparr>msgRole = System, msgContent = friendlyPrompt\<rparr>,
              \<lparr>msgRole = UserRole, msgContent = userMessage\<rparr>] [] 5 tr of
        (Inl err, tr1) \<Rightarrow> (Inl err, ag, tr1)
      | (Inr (None, calls), tr1) \<Rightarrow> (Inl (typeErrorMessage L (ascii ''content'')), ag, tr1)
      | (Inr (Some m, calls), tr1) \<Rightarrow>
          (let text = (if rawContent m = [] then greetingText else rawContent m);
               ag1 = addHistory now ag UserRole userMessage sessionId None [];
               ag2 = addHistory now ag1 Assistant text sessionId None []
           in (Inr (buildResponse now True text [] [] uid sessionId (Some ctx)), ag2, tr1)))"

text \<open>Stages 3 and 4: the decision call and the single retry.\<close>

definition decide ::
  "jslib \<Rightarrow> world \<Rightarrow> int \<Rightarrow> agent \<Rightarrow> tool list \<Rightarrow> jsstring \<Rightarrow> event list
     \<Rightarrow> (jsstring + rawMessage option \<times> llmToolCall list) \<times> event list" where
  "decide L w now ag availableTools userMessage tr =
     (let messages =
            [\<lparr>msgRole = System, msgContent = systemPrompt ag\<rparr>]
            @ map (\<lambda>h. \<lparr>msgRole = hRole h, msgContent = hContent h\<rparr>)
                (lastN 6 (conversationHistory ag))
            @ [\<lparr>msgRole = UserRole, msgContent = userMessage\<rparr>]
      in case callOllamaWithTools L w now messages availableTools 0 tr of
           (Inl err, tr2) \<Rightarrow> (Inl err, tr2)
         | (Inr (message, toolCalls), tr2) \<Rightarrow>
             if length toolCalls = 0 \<and> length availableTools > 0
             then (case callOllamaWithTools L w now
                          [\<lparr>msgRole = System, msgContent = retryPrompt availableTools\<rparr>,
                           \<lparr>msgRole = UserRole, msgContent = userMessage\<rparr>]
                          availableTools 0 tr2 of
                     (Inl err, tr3) \<Rightarrow> (Inl err, tr3)
                   | (Inr (retryMessage, retryCalls), tr3) \<Rightarrow>
                       if length retryCalls > 0
                       then (Inr (retryMessage, retryCalls), tr3)
                       else (Inr (message, toolCalls), tr3))
             else (Inr (message, toolCalls), tr2))"

text \<open>Stage 6: the text of the final answer.\<close>

definition finalResponse ::
  "jslib \<Rightarrow> world \<Rightarrow> int \<Rightarrow> bool \<Rightarrow> jsstring \<Rightarrow> toolResult list \<Rightarrow> rawMessage option
     \<Rightarrow> event list \<Rightarrow> (jsstring + jsstring) \<times> event list" where
  "finalResponse L w now isVietnamese userMessage results message tr =
     (if length results > 0
      then (case callOllamaWithTools L w now
                   (summaryMessages L isVietnamese userMessage results) [] 3 tr of
              (Inl err, tr5) \<Rightarrow> (Inl err, tr5)
            | (Inr (None, calls), tr5) \<Rightarrow> (Inl (typeErrorMessage L (ascii ''content'')), tr5)
            | (Inr (Some m, calls), tr5) \<Rightarrow>
                (Inr (if rawContent m = [] then doneText else rawContent m), tr5))
      else (case message of
              None \<Rightarrow> (Inl (typeErrorMessage L (ascii ''content'')), tr)
            | Some m \<Rightarrow>
                (Inr (if rawContent m = []
                      then (if isVietnamese then sorryVi else sorryEn)
                      else rawContent m), tr)))"

text \<open>Stages 2 to 7, the tool path.\<close>

definition toolPath ::
  "jslib \<Rightarrow> world \<Rightarrow> int \<Rightarrow> agent \<Rightarrow> sessionContext \<Rightarrow> event list
     \<Rightarrow> jsstring \<Rightarrow> jsstring option \<Rightarrow> jsstring option
     \<Rightarrow> (jsstring + agentResponse) \<times> agent \<times> event list" where
  "toolPath L w now ag ctx tr userMessage uid sessionId =
     (let (allTools, tr1) = getAvailableTools w tr;
          availableTools = filterRelevantTools L allTools userMessage 15
      in case decide L w now ag availableTools userMessage tr1 of
           (Inl err, tr3) \<Rightarrow> (Inl err, ag, tr3)
         | (Inr (message, toolCalls), tr3) \<Rightarrow>
             (let (results, tr4) = executeToolCalls L w ctx (maxToolCalls ag) toolCalls [] 0 tr3
              in case finalResponse L w now (isNonEnglish userMessage) userMessage results
                        message tr4 of
                   (Inl err, tr5) \<Rightarrow> (Inl err, ag, tr5)
                 | (Inr finalResponseText, tr5) \<Rightarrow>
                     (let uid' = orString uid (ctxUserId ctx);
                          ag1 = addHistory now ag UserRole userMessage sessionId uid' [];
                          ag2 = addHistory now ag1 Assistant finalResponseText sessionId
                                  None (map resName results)
                      in (Inr (buildResponse now True finalResponseText
                                 (map resName results) results uid' sessionId (Some ctx)),
                          ag2, tr5))))"

text \<open>
  The body of the \<open>try\<close> block: it returns the response or the message of the error
  thrown, together with the agent, the session store and the trace as they are then.
\<close>

definition tryProcessMessage ::
  "jslib \<Rightarrow> world \<Rightarrow> int \<Rightarrow> agent \<Rightarrow> sessionManager \<Rightarrow> event list
     \<Rightarrow> jsstring \<Rightarrow> jsstring option \<Rightarrow> jsstring option
     \<Rightarrow> (jsstring + agentResponse) \<times> agent \<times> sessionManager \<times> event list" where
  "tryProcessMessage L w now ag sm tr userMessage uid sessionId =
     (let (ctx, sm1) = getSessionContext now now sm sessionId;
          (r, ag', tr') =
            (if isConversationalMessage L userMessage
             then conversationalPath L w now ag ctx tr userMessage uid sessionId
             else toolPath L w now ag ctx tr userMessage uid sessionId)
      in (r, ag', sm1, tr'))"

text \<open>
  \<open>processMessage\<close>: the \<open>catch\<close> turns a thrown error into the failure response
  \<open>_buildResponse(false, `Error: ${error.message}`, [], [], userId, sessionId)\<close>.
\<close>

definition processMessage ::
  "jslib \<Rightarrow> world \<Rightarrow> int \<Rightarrow> agent \<Rightarrow> sessionManager \<Rightarrow> event list
     \<Rightarrow> jsstring \<Rightarrow> jsstring option \<Rightarrow> jsstring option
     \<Rightarrow> agentResponse \<times> agent \<times> sessionManager \<times> event list" where
  "processMessage L w now ag sm tr userMessage uid sessionId =
     (case tryProcessMessage L w now ag sm tr userMessage uid sessionId of
        (Inr r, ag', sm', tr') \<Rightarrow> (r, ag', sm', tr')
      | (Inl err, ag', sm', tr') \<Rightarrow>
          (buildResponse now False (ascii ''Error: '' @ err) [] [] uid sessionId None,
           ag', sm', tr'))"

text \<open>
  The gateway requests that a list of proposed calls stands for, in order: one for each
  call that reaches the gateway. And the gateway requests recorded in a trace.
\<close>

definition invokeEvents :: "jslib \<Rightarrow> sessionContext \<Rightarrow> llmToolCall list \<Rightarrow> event list" where
  "invokeEvents L ctx calls =
     concat (map (\<lambda>c. case callRequest L c of
                         Inl msg \<Rightarrow> []
                       | Inr (toolName, toolArgs) \<Rightarrow> [EvInvoke toolName toolArgs (authHeaders ctx)])
               calls)"

definition invoked :: "event list \<Rightarrow> event list" where
  "invoked tr = filter (\<lambda>e. case e of EvInvoke n a h \<Rightarrow> True | _ \<Rightarrow> False) tr"

text \<open>The number of tool invocations in a trace.\<close>

definition invocations :: "event list \<Rightarrow> nat" where
  "invocations tr = length (filter (\<lambda>e. case e of EvInvoke n a h \<Rightarrow> True | _ \<Rightarrow> False) tr)"

section \<open>A concrete runtime, for evaluating the model on concrete inputs\<close>

text \<open>
  The general theorems hold for every \<open>jslib\<close>. To run the model on concrete inputs the
  built-ins are instantiated as follows; the instance agrees with the JavaScript runtime
  on the inputs it is used on below.
  \<^item> \<open>toLowerCase\<close> and \<open>normalize('NFD')\<close> are given for Basic Latin and for the precomposed
    Vietnamese letters (the letters the character class of \<open>isNonEnglish\<close> lists, in both
    cases); other code units are left unchanged.
  \<^item> \<open>JSON.parse\<close> follows the JSON grammar (ECMA-404): white space, objects, arrays,
    strings with all escapes, \<open>true\<close>, \<open>false\<close>, \<open>null\<close> and integer literals. A number
    with a fraction or an exponent is outside the instance. A repeated key keeps its first
    position and takes its last value.
  \<^item> \<open>JSON.stringify\<close> (compact, and with an indentation of two spaces) follows
    ECMA-262.
  \<^item> The message texts of errors are engine-specific; the instance uses fixed texts.
\<close>

subsection \<open>Case and decomposition tables\<close>

definition vietLowerTable :: "(nat \<times> nat) list" where
  "vietLowerTable = zip vietLettersUpper vietLetters"

definition vietNFDTable :: "(nat \<times> nat list) list" where
  "vietNFDTable =
    [(224, [97, 768]), (225, [97, 769]), (7841, [97, 803]), (7843, [97, 777]),
     (227, [97, 771]), (226, [97, 770]), (7847, [97, 770, 768]), (7845, [97, 770, 769]),
     (7853, [97, 803, 770]), (7849, [97, 770, 777]), (7851, [97, 770, 771]), (259, [97, 774]),
     (7857, [97, 774, 768]), (7855, [97, 774, 769]), (7863, [97, 803, 774]),
     (7859, [97, 774, 777]), (7861, [97, 774, 771]), (232, [101, 768]), (233, [101, 769]),
     (7865, [101, 803]), (7867, [101, 777]), (7869, [101, 771]), (234, [101, 770]),
     (7873, [101, 770, 768]), (7871, [101, 770, 769]), (7879, [101, 803, 770]),
     (7875, [101, 770, 777]), (7877, [101, 770, 771]), (236, [105, 768]), (237, [105, 769]),
     (7883, [105, 803]), (7881, [105, 777]), (297, [105, 771]), (242, [111, 768]),
     (243, [111, 769]), (7885, [111, 803]), (7887, [111, 777]), (245, [111, 771]),
     (244, [111, 770]), (7891, [111, 770, 768]), (7889, [111, 770, 769]),
     (7897, [111, 803, 770]), (7893, [111, 770, 777]), (7895, [111, 770, 771]),
     (417, [111, 795]), (7901, [111, 795, 768]), (7899, [111, 795, 769]),
     (7907, [111, 795, 803]), (7903, [111, 795, 777]), (7905, [111, 795, 771]),
     (249, [117, 768]), (250, [117, 769]), (7909, [117, 803]), (7911, [117, 777]),
     (361, [117, 771]), (432, [117, 795]), (7915, [117, 795, 768]), (7913, [117, 795, 769]),
     (7921, [117, 795, 803]), (7917, [117, 795, 777]), (7919, [117, 795, 771]),
     (7923, [121, 768]), (253, [121, 769]), (7925, [121, 803]), (7927, [121, 777]),
     (7929, [121, 771]), (192, [65, 768]), (193, [65, 769]), (7840, [65, 803]),
     (7842, [65, 777]), (195, [65, 771]), (194, [65, 770]), (7846, [65, 770, 768]),
     (7844, [65, 770, 769]), (7852, [65, 803, 770]), (7848, [65, 770, 777]),
     (7850, [65, 770, 771]), (258, [65, 774]), (7856, [65, 774, 768]), (7854, [65, 774, 769]),
     (7862, [65, 803, 774]), (7858, [65, 774, 777]), (7860, [65, 774, 771]), (200, [69, 768]),
     (201, [69, 769]), (7864, [69, 803]), (7866, [69, 777]), (7868, [69, 771]),
     (202, [69, 770]), (7872, [69, 770, 768]), (7870, [69, 770, 769]), (7878, [69, 803, 770]),
     (7874, [69, 770, 777]), (7876, [69, 770, 771]), (204, [73, 768]), (205, [73, 769]),
     (7882, [73, 803]), (7880, [73, 777]), (296, [73, 771]), (210, [79, 768]),
     (211, [79, 769]), (7884, [79, 803]), (7886, [79, 777]), (213, [79, 771]),
     (212, [79, 770]), (7890, [79, 770, 768]), (7888, [79, 770, 769]), (7896, [79, 803, 770]),
     (7892, [79, 770, 777]), (7894, [79, 770, 771]), (416, [79, 795]), (7900, [79, 795, 768]),
     (7898, [79, 795, 769]), (7906, [79, 795, 803]), (7902, [79, 795, 777]),
     (7904, [79, 795, 771]), (217, [85, 768]), (218, [85, 769]), (7908, [85, 803]),
     (7910, [85, 777]), (360, [85, 771]), (431, [85, 795]), (7914, [85, 795, 768]),
     (7912, [85, 795, 769]), (7920, [85, 795, 803]), (7916, [85, 795, 777]),
     (7918, [85, 795, 771]), (7922, [89, 768]), (221, [89, 769]), (7924, [89, 803]),
     (7926, [89, 777]), (7928, [89, 771])]"
fun tableLookup :: "(nat \<times> 'a) list \<Rightarrow> nat \<Rightarrow> 'a option" where
  "tableLookup [] c = None"
| "tableLookup ((k, v) # rest) c = (if k = c then Some v else tableLookup rest c)"

definition lowerUnit :: "nat \<Rightarrow> nat" where
  "lowerUnit c =
     (if 65 \<le> c \<and> c \<le> 90 then c + 32
      else if c < 128 then c
      else case tableLookup vietLowerTable c of Some l \<Rightarrow> l | None \<Rightarrow> c)"

definition nfdUnit :: "nat \<Rightarrow> nat list" where
  "nfdUnit c =
     (if c < 128 then [c]
      else case tableLookup vietNFDTable c of Some d \<Rightarrow> d | None \<Rightarrow> [c])"

subsection \<open>JSON.parse\<close>

definition isJsonWs :: "nat \<Rightarrow> bool" where
  "isJsonWs c \<longleftrightarrow> c = 32 \<or> c = 9 \<or> c = 10 \<or> c = 13"

definition skipWs :: "jsstring \<Rightarrow> jsstring" where
  "skipWs s = dropWhile isJsonWs s"

definition hexVal :: "nat \<Rightarrow> nat option" where
  "hexVal c =
     (if 48 \<le> c \<and> c \<le> 57 then Some (c - 48)
      else if 97 \<le> c \<and> c \<le> 102 then Some (c - 87)
      else if 65 \<le> c \<and> c \<le> 70 then Some (c - 55)
      else None)"

fun hex4 :: "jsstring \<Rightarrow> nat option" where
  "hex4 [a, b, c, d] =
     (case (hexVal a, hexVal b, hexVal c, hexVal d) of
        (Some w, Some x, Some y, Some z) \<Rightarrow> Some (((w * 16 + x) * 16 + y) * 16 + z)
      | _ \<Rightarrow> None)"
| "hex4 _ = None"

definition escChar :: "nat \<Rightarrow> nat option" where
  "escChar e =
     (if e = 34 then Some 34 else if e = 92 then Some 92 else if e = 47 then Some 47
      else if e = 98 then Some 8 else if e = 102 then Some 12 else if e = 110 then Some 10
      else if e = 114 then Some 13 else if e = 116 then Some 9 else None)"

text \<open>The characters of a string after its opening quote, and the rest behind the closing one.\<close>

fun parseChars :: "jsstring \<Rightarrow> (jsstring \<times> jsstring) option" where
  "parseChars [] = None"
| "parseChars (c # cs) =
     (if c = 34 then Some ([], cs)
      else if c = 92 then
        (case cs of
           [] \<Rightarrow> None
         | e # r \<Rightarrow>
             if e = 117 then
               (case hex4 (take 4 r) of
                  None \<Rightarrow> None
                | Some u \<Rightarrow> map_option (\<lambda>(s, t). (u # s, t)) (parseChars (drop 4 r)))
             else
               (case escChar e of
                  None \<Rightarrow> None
                | Some x \<Rightarrow> map_option (\<lambda>(s, t). (x # s, t)) (parseChars r)))
      else if c < 32 then None
      else map_option (\<lambda>(s, t). (c # s, t)) (parseChars cs))"

definition isDigit :: "nat \<Rightarrow> bool" where
  "isDigit c \<longleftrightarrow> 48 \<le> c \<and> c \<le> 57"

definition digitsValue :: "jsstring \<Rightarrow> nat" where
  "digitsValue ds = foldl (\<lambda>n d. n * 10 + (d - 48)) 0 ds"

text \<open>An integer literal: \<open>-? (0 | [1-9][0-9]*)\<close>, not followed by a fraction or an exponent.\<close>

definition parseNumber :: "jsstring \<Rightarrow> (json \<times> jsstring) option" where
  "parseNumber s =
     (let neg = (s \<noteq> [] \<and> hd s = 45);
          s1 = (if neg then tl s else s);
          ds = (if s1 \<noteq> [] \<and> hd s1 = 48 then [48] else takeWhile isDigit s1);
          r = drop (length ds) s1
      in if ds = [] then None
         else if r \<noteq> [] \<and> (hd r = 46 \<or> hd r = 101 \<or> hd r = 69) then None
         else Some (JNum (if neg then - int (digitsValue ds) else int (digitsValue ds)), r))"

text \<open>
  Recursive descent; the first argument bounds the depth of the call chain, which never
  exceeds the length of the text.
\<close>

fun parseValue :: "nat \<Rightarrow> jsstring \<Rightarrow> (json \<times> jsstring) option"
  and parseElements :: "nat \<Rightarrow> jsstring \<Rightarrow> (json list \<times> jsstring) option"
  and parseMembers :: "nat \<Rightarrow> jsstring \<Rightarrow> ((jsstring \<times> json) list \<times> jsstring) option" where
  "parseValue 0 s = None"
| "parseValue (Suc n) s =
     (case skipWs s of
        [] \<Rightarrow> None
      | c # cs \<Rightarrow>
          if c = 123 then
            (case skipWs cs of
               [] \<Rightarrow> None
             | d # r \<Rightarrow> if d = 125 then Some (JObj [], r)
                        else map_option (\<lambda>(kvs, t). (JObj (newMap kvs), t)) (parseMembers n cs))
          else if c = 91 then
            (case skipWs cs of
               [] \<Rightarrow> None
             | d # r \<Rightarrow> if d = 93 then Some (JArr [], r)
                        else map_option (\<lambda>(vs, t). (JArr vs, t)) (parseElements n cs))
          else if c = 34 then map_option (\<lambda>(str, t). (JStr str, t)) (parseChars cs)
          else if startsWith (c # cs) (ascii ''true'') then Some (JBool True, drop 3 cs)
          else if startsWith (c # cs) (ascii ''false'') then Some (JBool False, drop 4 cs)
          else if startsWith (c # cs) (ascii ''null'') then Some (JNull, drop 3 cs)
          else parseNumber (c # cs))"
| "parseElements 0 s = None"
| "parseElements (Suc n) s =
     (case parseValue n s of
        None \<Rightarrow> None
      | Some (v, r) \<Rightarrow>
          (case skipWs r of
             [] \<Rightarrow> None
           | d # r' \<Rightarrow>
               if d = 44 then map_option (\<lambda>(vs, t). (v # vs, t)) (parseElements n r')
               else if d = 93 then Some ([v], r')
               else None))"
| "parseMembers 0 s = None"
| "parseMembers (Suc n) s =
     (case skipWs s of
        [] \<Rightarrow> None
      | q # r \<Rightarrow>
          if q \<noteq> 34 then None
          else (case parseChars r of
                  None \<Rightarrow> None
                | Some (k, r1) \<Rightarrow>
                    (case skipWs r1 of
                       [] \<Rightarrow> None
                     | col # r2 \<Rightarrow>
                         if col \<noteq> 58 then None
                         else (case parseValue n r2 of
                                 None \<Rightarrow> None
                               | Some (v, r3) \<Rightarrow>
                                   (case skipWs r3 of
                                      [] \<Rightarrow> None
                                    | d # r4 \<Rightarrow>
                                        if d = 44
                                        then map_option (\<lambda>(kvs, t). ((k, v) # kvs, t))
                                               (parseMembers n r4)
                                        else if d = 125 then Some ([(k, v)], r4)
                                        else None)))))"

definition jsonParse :: "jsstring \<Rightarrow> json option" where
  "jsonParse s =
     (case parseValue (Suc (length s)) s of
        None \<Rightarrow> None
      | Some (v, r) \<Rightarrow> if skipWs r = [] then Some v else None)"

subsection \<open>JSON.stringify\<close>

definition hexDigit :: "nat \<Rightarrow> nat" where
  "hexDigit d = (if d < 10 then 48 + d else 87 + d)"

definition unicodeEscape :: "nat \<Rightarrow> jsstring" where
  "unicodeEscape c =
     [92, 117, hexDigit (c div 4096 mod 16), hexDigit (c div 256 mod 16),
      hexDigit (c div 16 mod 16), hexDigit (c mod 16)]"

definition quoteUnit :: "nat \<Rightarrow> jsstring" where
  "quoteUnit c =
     (if c = 8 then [92, 98] else if c = 9 then [92, 116] else if c = 10 then [92, 110]
      else if c = 12 then [92, 102] else if c = 13 then [92, 114]
      else if c = 34 then [92, 34] else if c = 92 then [92, 92]
      else if c < 32 then unicodeEscape c
      else [c])"

definition isHighSurrogate :: "nat \<Rightarrow> bool" where
  "isHighSurrogate c \<longleftrightarrow> 55296 \<le> c \<and> c \<le> 56319"

definition isLowSurrogate :: "nat \<Rightarrow> bool" where
  "isLowSurrogate c \<longleftrightarrow> 56320 \<le> c \<and> c \<le> 57343"

fun quoteUnits :: "jsstring \<Rightarrow> jsstring" where
  "quoteUnits [] = []"
| "quoteUnits [c] =
     (if isHighSurrogate c \<or> isLowSurrogate c then unicodeEscape c else quoteUnit c)"
| "quoteUnits (c # d # ds) =
     (if isHighSurrogate c \<and> isLowSurrogate d then c # d # quoteUnits ds
      else if isHighSurrogate c \<or> isLowSurrogate c then unicodeEscape c @ quoteUnits (d # ds)
      else quoteUnit c @ quoteUnits (d # ds))"

definition quoteJSONString :: "jsstring \<Rightarrow> jsstring" where
  "quoteJSONString s = [34] @ quoteUnits s @ [34]"

text \<open>\<open>JSON.stringify(v)\<close>\<close>

fun JSON_stringify :: "json \<Rightarrow> jsstring" where
  "JSON_stringify JNull = ascii ''null''"
| "JSON_stringify (JBool b) = (if b then ascii ''true'' else ascii ''false'')"
| "JSON_stringify (JNum i) = intToString i"
| "JSON_stringify (JStr s) = quoteJSONString s"
| "JSON_stringify (JArr vs) = [91] @ joinWith [44] (map JSON_stringify vs) @ [93]"
| "JSON_stringify (JObj kvs) =
     [123] @ joinWith [44] (map (\<lambda>(k, v). quoteJSONString k @ [58] @ JSON_stringify v) kvs) @ [125]"

text \<open>\<open>JSON.stringify(v, null, 2)\<close> at a nesting depth of \<open>ind\<close> spaces.\<close>

fun stringifyIndented :: "nat \<Rightarrow> json \<Rightarrow> jsstring" where
  "stringifyIndented ind (JArr vs) =
     (if vs = [] then ascii ''[]''
      else [91, 10] @ replicate (ind + 2) 32
           @ joinWith ([44, 10] @ replicate (ind + 2) 32) (map (stringifyIndented (ind + 2)) vs)
           @ [10] @ replicate ind 32 @ [93])"
| "stringifyIndented ind (JObj kvs) =
     (if kvs = [] then ascii ''{}''
      else [123, 10] @ replicate (ind + 2) 32
           @ joinWith ([44, 10] @ replicate (ind + 2) 32)
               (map (\<lambda>(k, v). quoteJSONString k @ [58, 32] @ stringifyIndented (ind + 2) v) kvs)
           @ [10] @ replicate ind 32 @ [125])"
| "stringifyIndented ind v = JSON_stringify v"

definition jsRuntime :: jslib where
  "jsRuntime =
     \<lparr>toLowerCase = map lowerUnit,
      normalizeNFD = (\<lambda>s. concat (map nfdUnit s)),
      JSON_parse = jsonParse,
      JSON_stringify2 = stringifyIndented 0,
      syntaxErrorMessage = (\<lambda>text. ascii ''Unexpected token in JSON''),
      typeErrorMessage =
        (\<lambda>p. ascii ''Cannot read properties of undefined (reading '' @ [39] @ p @ [39] @ ascii '')'')\<rparr>"

section \<open>Concrete inputs\<close>

text \<open>A descriptor with an ASCII name and description and an empty parameter schema.\<close>

definition mkTool :: "string \<Rightarrow> string \<Rightarrow> tool" where
  "mkTool n d = \<lparr>name = ascii n, description = ascii d, schemaProperties = [], schemaRequired = []\<rparr>"

text \<open>An ASCII literal between double quotes, as it stands in a JSON text.\<close>

definition quoted :: "string \<Rightarrow> jsstring" where
  "quoted s = [34] @ ascii s @ [34]"

text \<open>A reply that mentions two tool names in prose and holds no JSON.\<close>

definition fallbackText :: jsstring where
  "fallbackText = ascii ''call get_house, then get_room''"





definition escapedText :: jsstring where
  "escapedText = ascii ''{'' @ quoted ''tool'' @ ascii '':'' @ [34] @ ascii ''get'' @ [92]
     @ ascii ''u005froom'' @ [34] @ ascii ''}''"

text \<open>A reply that embeds a call of a tool that is not in the catalog.\<close>

definition unknownText :: jsstring where
  "unknownText = ascii ''I would run {'' @ quoted ''tool'' @ ascii '':'' @ quoted ''rm_rf''
     @ ascii '','' @ quoted ''args'' @ ascii '':{}} for you''"


text \<open>
  Worlds. In \<open>downWorld\<close> the model backend fails every request with \<open>timeout\<close>. In
  \<open>chatWorld\<close> the model answers every request with the text \<open>Hi there!\<close>. In
  \<open>eightCallsWorld\<close> the catalog holds \<open>get_room\<close>; the model answers the first request
  with eight native tool calls (the second with arguments that are not JSON) and every
  later request with the text \<open>Done.\<close>; the tool backend fails the invocation with
  \<open>id\<close> 3 and answers the others.
\<close>

definition downWorld :: world where
  "downWorld =
     \<lparr>ollamaChat = (\<lambda>tr req. Inl (ascii ''timeout'')),
      mcpListTools = (\<lambda>tr. Inr []),
      mcpInvoke = (\<lambda>tr n a h. Inl (ascii ''unreachable''))\<rparr>"

definition chatWorld :: world where
  "chatWorld =
     \<lparr>ollamaChat = (\<lambda>tr req. Inr (Some \<lparr>rawContent = ascii ''Hi there!'', rawToolCalls = []\<rparr>)),
      mcpListTools = (\<lambda>tr. Inr [mkTool ''get_room'' ''Get a room'']),
      mcpInvoke = (\<lambda>tr n a h. Inl (ascii ''unreachable''))\<rparr>"

definition nativeCall :: "int \<Rightarrow> llmToolCall" where
  "nativeCall i =
     \<lparr>callId = None,
      callFunction = Some \<lparr>fnName = ascii ''get_room'',
                           fnArguments = Some (JObj [(ascii ''id'', JNum i)])\<rparr>\<rparr>"

definition eightCalls :: "llmToolCall list" where
  "eightCalls =
     [nativeCall 1,
      \<lparr>callId = None,
       callFunction = Some \<lparr>fnName = ascii ''get_room'', fnArguments = Some (JStr (ascii ''{bad''))\<rparr>\<rparr>,
      nativeCall 3, nativeCall 4, nativeCall 5, nativeCall 6, nativeCall 7, nativeCall 8]"

definition eightCallsWorld :: world where
  "eightCallsWorld =
     \<lparr>ollamaChat = (\<lambda>tr req.
        if list_ex (\<lambda>e. case e of EvChat r \<Rightarrow> True | _ \<Rightarrow> False) tr
        then Inr (Some \<lparr>rawContent = ascii ''Done.'', rawToolCalls = []\<rparr>)
        else Inr (Some \<lparr>rawContent = [], rawToolCalls = eightCalls\<rparr>)),
      mcpListTools = (\<lambda>tr. Inr [mkTool ''get_room'' ''Get a room'']),
      mcpInvoke = (\<lambda>tr n a h.
        if a = JObj [(ascii ''id'', JNum 3)] then Inl (ascii ''HTTP 500'')
        else Inr (JObj [(ascii ''ok'', JBool True)]))\<rparr>"

text \<open>
  In \<open>summaryDownWorld\<close> the model answers the first request with eight well-formed
  native calls and fails every later request with \<open>timeout\<close>; the tool backend answers
  every invocation.
\<close>

definition eightGoodCalls :: "llmToolCall list" where
  "eightGoodCalls = map nativeCall [1, 2, 3, 4, 5, 6, 7, 8]"

definition summaryDownWorld :: world where
  "summaryDownWorld =
     \<lparr>ollamaChat = (\<lambda>tr req.
        if list_ex (\<lambda>e. case e of EvChat r \<Rightarrow> True | _ \<Rightarrow> False) tr
        then Inl (ascii ''timeout'')
        else Inr (Some \<lparr>rawContent = [], rawToolCalls = eightGoodCalls\<rparr>)),
      mcpListTools = (\<lambda>tr. Inr [mkTool ''get_room'' ''Get a room'']),
      mcpInvoke = (\<lambda>tr n a h. Inr (JObj [(ascii ''ok'', JBool True)]))\<rparr>"

text \<open>The gateway request \<open>get_room {id: i}\<close> of an anonymous session.\<close>

definition roomEvent :: "int \<Rightarrow> event" where
  "roomEvent i = EvInvoke (ascii ''get_room'') (JObj [(ascii ''id'', JNum i)]) []"

definition noSessions :: sessionManager where
  "noSessions = \<lparr>sessions = Map.empty\<rparr>"

text \<open>
  The apology text with which the earlier version of the orchestrator answered a failure.
\<close>

definition apologyText :: jsstring where
  "apologyText =
     ascii ''Xin l'' @ [7895] @ ascii ''i, t'' @ [244] @ ascii ''i g'' @ [7863]
     @ ascii ''p l'' @ [7895] @ ascii ''i khi x'' @ [7917] @ ascii '' l'' @ [253]
     @ ascii '' y'' @ [234] @ ascii ''u c'' @ [7847] @ ascii ''u c'' @ [7911] @ ascii ''a b''
     @ [7841] @ ascii ''n. Vui l'' @ [242] @ ascii ''ng th'' @ [7917] @ ascii '' l'' @ [7841]
     @ ascii ''i sau.''"

section \<open>Properties of the Session Context Store\<close>

lemma sidOf_idem: "sidOf (Some (sidOf x)) = sidOf x"
  by (simp add: sidOf_def defaultSessionId_def ascii_def split: option.splits)

lemma getToken_Some_iff:
  "fst (getToken now sm sessionId) = Some t \<longleftrightarrow>
     (\<exists>s. sessions sm (sidOf sessionId) = Some s \<and> token s = t \<and> t \<noteq> [] \<and>
          (expiresAt s = 0 \<or> now \<le> expiresAt s))"
  by (auto simp: getToken_def Let_def split: option.splits)

text \<open>
  Every session that \<open>setToken\<close> writes at a positive clock value, with a lifetime that is
  absent or not negative, holds an expiry that lies after the write.
\<close>

lemma setToken_expiry:
  assumes "0 < now" and "case expiresIn ad of None \<Rightarrow> True | Some n \<Rightarrow> 0 \<le> n"
  shows "\<exists>s. sessions (setToken now sm tok uid sessionId ad) (sidOf sessionId) = Some s
           \<and> token s = tok \<and> expiresAt s \<noteq> 0 \<and> now < expiresAt s"
  using assms by (auto simp: setToken_def Let_def split: option.splits)

text \<open>
  C2. For a session that holds a token and an expiry, \<open>getToken\<close> returns the stored token
  exactly while \<open>now \<le> expiresAt\<close>, leaving the store as it is; once \<open>now\<close> exceeds the
  expiry the same call returns \<open>null\<close> and removes the session's entry, and any later
  \<open>getSessionContext\<close> on that session reports \<open>isAuthenticated: false\<close> with no token.
  In every store, a token that \<open>getToken\<close> returns is the stored one of a session that is
  unexpired (or carries no expiry).
\<close>

theorem getToken_expiry:
  assumes "sessions sm (sidOf sessionId) = Some s"
    and "token s \<noteq> []"
    and "expiresAt s \<noteq> 0"
  shows "(now \<le> expiresAt s \<longrightarrow> getToken now sm sessionId = (Some (token s), sm))
       \<and> (expiresAt s < now \<longrightarrow>
            getToken now sm sessionId
              = (None, sm\<lparr>sessions := (sessions sm)(sidOf sessionId := None)\<rparr>)
          \<and> sessions (snd (getToken now sm sessionId)) (sidOf sessionId) = None
          \<and> isAuthenticated
               (fst (getSessionContext t1 t2 (snd (getToken now sm sessionId)) sessionId)) = False
          \<and> ctxToken
               (fst (getSessionContext t1 t2 (snd (getToken now sm sessionId)) sessionId)) = None)
       \<and> (\<forall>t. fst (getToken now sm sessionId) = Some t \<longrightarrow> t = token s \<and> now \<le> expiresAt s)"
proof -
  let ?sm' = "sm\<lparr>sessions := (sessions sm)(sidOf sessionId := None)\<rparr>"
  have live: "now \<le> expiresAt s \<longrightarrow> getToken now sm sessionId = (Some (token s), sm)"
    using assms by (simp add: getToken_def)
  have dead: "expiresAt s < now \<longrightarrow>
            getToken now sm sessionId = (None, ?sm')
          \<and> sessions (snd (getToken now sm sessionId)) (sidOf sessionId) = None
          \<and> isAuthenticated
               (fst (getSessionContext t1 t2 (snd (getToken now sm sessionId)) sessionId)) = False
          \<and> ctxToken
               (fst (getSessionContext t1 t2 (snd (getToken now sm sessionId)) sessionId)) = None"
  proof
    assume lt: "expiresAt s < now"
    have g: "getToken now sm sessionId = (None, ?sm')"
      using assms lt by (simp add: getToken_def clearSession_def sidOf_idem)
    have c: "getSessionContext t1 t2 ?sm' sessionId =
        (\<lparr>ctxSessionId = sidOf sessionId, isAuthenticated = False, ctxToken = None,
          ctxUserId = None, ctxExpiresAt = None, ctxRefreshToken = None\<rparr>, ?sm')"
      by (simp add: getSessionContext_def Let_def)
    show "getToken now sm sessionId = (None, ?sm')
          \<and> sessions (snd (getToken now sm sessionId)) (sidOf sessionId) = None
          \<and> isAuthenticated
               (fst (getSessionContext t1 t2 (snd (getToken now sm sessionId)) sessionId)) = False
          \<and> ctxToken
               (fst (getSessionContext t1 t2 (snd (getToken now sm sessionId)) sessionId)) = None"
      unfolding g snd_conv c by simp
  qed
  have only: "\<forall>t. fst (getToken now sm sessionId) = Some t \<longrightarrow> t = token s \<and> now \<le> expiresAt s"
    using assms by (auto simp: getToken_Some_iff)
  show ?thesis by (rule conjI [OF live conjI [OF dead only]])
qed

text \<open>
  The store after \<open>setToken\<close> at time \<open>1000\<close> with the default lifetime: the token is
  returned at the expiry instant \<open>3601000\<close> and evicted one millisecond later.
\<close>

theorem getToken_expiry_witness:
  "(let sm = setToken 1000 \<lparr>sessions = Map.empty\<rparr> (ascii ''tok'') (ascii ''u1'') None
               noAdditionalData
    in getToken 3601000 sm None = (Some (ascii ''tok''), sm)
     \<and> getToken 3601001 sm None = (None, \<lparr>sessions = Map.empty\<rparr>)
     \<and> isAuthenticated (fst (getSessionContext 3601002 3601003
          (snd (getToken 3601001 sm None)) None)) = False)"
proof -
  define sm where "sm = setToken 1000 \<lparr>sessions = Map.empty\<rparr> (ascii ''tok'') (ascii ''u1'') None
               noAdditionalData"
  define s where "s = \<lparr>token = ascii ''tok'', userId = ascii ''u1'', expiresAt = 3601000,
             refreshToken = None, loginTime = 1000\<rparr>"
  have a1: "sessions sm (sidOf None) = Some s"
    by (simp add: sm_def s_def setToken_def noAdditionalData_def)
  have a2: "token s \<noteq> []" by (simp add: s_def ascii_def)
  have a3: "expiresAt s \<noteq> 0" by (simp add: s_def)
  have e: "expiresAt s = 3601000" "token s = ascii ''tok''" by (simp_all add: s_def)
  have m: "sm\<lparr>sessions := (sessions sm)(sidOf None := None)\<rparr> = \<lparr>sessions = Map.empty\<rparr>"
    by (simp add: sm_def setToken_def noAdditionalData_def)
  note live = getToken_expiry [OF a1 a2 a3, of 3601000 0 0, THEN conjunct1, rule_format]
  note dead = getToken_expiry [OF a1 a2 a3, of 3601001 3601002 3601003,
      THEN conjunct2, THEN conjunct1, rule_format]
  have l: "getToken 3601000 sm None = (Some (ascii ''tok''), sm)"
    using live by (simp add: e)
  have lt: "expiresAt s < 3601001" by (simp add: e)
  have d1: "getToken 3601001 sm None = (None, \<lparr>sessions = Map.empty\<rparr>)"
    using dead [OF lt] m by simp
  have d2: "isAuthenticated (fst (getSessionContext 3601002 3601003
          (snd (getToken 3601001 sm None)) None)) = False"
    using dead [OF lt] by blast
  show ?thesis unfolding Let_def sm_def [symmetric] using l d1 d2 by blast
qed

section \<open>Properties of the Tool Catalog Filter\<close>

subsection \<open>The de-duplicating map\<close>

lemma firstOccs_cong: "set s = set s' \<Longrightarrow> firstOccs s xs = firstOccs s' xs"
proof (induction xs arbitrary: s s')
  case Nil
  show ?case by simp
next
  case (Cons x xs)
  have a: "firstOccs s xs = firstOccs s' xs"
    by (rule Cons.IH) (rule Cons.prems)
  have b: "firstOccs (x # s) xs = firstOccs (x # s') xs"
    by (rule Cons.IH) (simp add: Cons.prems)
  show ?case by (simp add: a b Cons.prems)
qed

lemma keys_mapSet_in: "k \<in> fst ` set m \<Longrightarrow> map fst (mapSet m k v) = map fst m"
  by (induction m) force+

lemma keys_mapSet_notin: "k \<notin> fst ` set m \<Longrightarrow> map fst (mapSet m k v) = map fst m @ [k]"
  by (induction m) auto

lemma keys_mapSet:
  "map fst (mapSet m k v) = (if k \<in> set (map fst m) then map fst m else map fst m @ [k])"
  by (simp add: keys_mapSet_in keys_mapSet_notin)

lemma map_of_mapSet: "map_of (mapSet m k v) = (map_of m)(k \<mapsto> v)"
  by (induction m) (auto simp: fun_upd_twist)

lemma keys_foldl_mapSet:
  "map fst (foldl (\<lambda>m (k, v). mapSet m k v) m ps) = map fst m @ firstOccs (map fst m) (map fst ps)"
proof (induction ps arbitrary: m)
  case Nil
  then show ?case by simp
next
  case (Cons p ps)
  obtain k v where p: "p = (k, v)" by (cases p)
  show ?case
  proof (cases "k \<in> set (map fst m)")
    case True
    then have "firstOccs (map fst (mapSet m k v)) (map fst ps) = firstOccs (map fst m) (map fst ps)"
      by (simp add: keys_mapSet)
    with True show ?thesis by (simp add: p Cons.IH keys_mapSet)
  next
    case False
    have "firstOccs (map fst m @ [k]) (map fst ps) = firstOccs (k # map fst m) (map fst ps)"
      by (rule firstOccs_cong) auto
    with False show ?thesis by (simp add: p Cons.IH keys_mapSet)
  qed
qed

lemma keys_newMap: "map fst (newMap ps) = firstOccurrences (map fst ps)"
  by (simp add: newMap_def firstOccurrences_def keys_foldl_mapSet)

lemma map_of_foldl_mapSet:
  "map_of (foldl (\<lambda>m (k, v). mapSet m k v) m ps) = map_of m ++ map_of (rev ps)"
proof (induction ps arbitrary: m)
  case Nil
  then show ?case by simp
next
  case (Cons p ps)
  obtain k v where p: "p = (k, v)" by (cases p)
  let ?f = "\<lambda>m (k, v). mapSet m k v"
  have "map_of (foldl ?f m (p # ps)) = map_of (foldl ?f (mapSet m k v) ps)"
    by (simp add: p)
  also have "\<dots> = map_of (mapSet m k v) ++ map_of (rev ps)"
    by (rule Cons.IH)
  also have "\<dots> = (map_of m)(k \<mapsto> v) ++ map_of (rev ps)"
    by (simp only: map_of_mapSet)
  also have "\<dots> = map_of m ++ map_of (rev (p # ps))"
    by (rule ext) (simp add: p map_add_def split: option.splits)
  finally show ?case .
qed

lemma firstOccs_distinct: "distinct (firstOccs s xs) \<and> set (firstOccs s xs) = set xs - set s"
  by (induction xs arbitrary: s) auto

lemma distinct_keys_newMap: "distinct (map fst (newMap ps))"
  by (simp add: keys_newMap firstOccurrences_def firstOccs_distinct)

lemma newMap_entry:
  assumes "(k, v) \<in> set (newMap ps)"
  shows "map_of (rev ps) k = Some v"
proof -
  have "map_of (newMap ps) k = Some v"
    using assms by (simp add: map_of_eq_Some_iff [OF distinct_keys_newMap])
  then show ?thesis by (simp add: newMap_def map_of_foldl_mapSet)
qed

lemma map_of_rev_tagged:
  "map_of (rev (map (\<lambda>u. (f u, u)) ts)) k =
     (if \<exists>u\<in>set ts. f u = k then Some (last (filter (\<lambda>u. f u = k) ts)) else None)"
  by (induction ts rule: rev_induct) auto

lemma uniqueByName_last:
  assumes "t \<in> set (uniqueByName ts)"
  shows "t \<in> set ts \<and> last (filter (\<lambda>u. name u = name t) ts) = t"
proof -
  from assms obtain k where kv: "(k, t) \<in> set (newMap (map (\<lambda>u. (name u, u)) ts))"
    by (auto simp: uniqueByName_def)
  then have m: "map_of (rev (map (\<lambda>u. (name u, u)) ts)) k = Some t"
    by (rule newMap_entry)
  then have "(k, t) \<in> set (map (\<lambda>u. (name u, u)) ts)"
    using map_of_SomeD [OF m] by simp
  then have k: "k = name t" and mem: "t \<in> set ts" by auto
  from m show ?thesis unfolding map_of_rev_tagged k using mem by (auto split: if_splits)
qed

lemma names_uniqueByName: "map name (uniqueByName ts) = firstOccurrences (map name ts)"
proof -
  have "map name (uniqueByName ts) = map fst (newMap (map (\<lambda>u. (name u, u)) ts))"
  proof -
    have "\<forall>(k, t) \<in> set (newMap (map (\<lambda>u. (name u, u)) ts)). k = name t"
    proof (clarify)
      fix k t assume "(k, t) \<in> set (newMap (map (\<lambda>u. (name u, u)) ts))"
      from map_of_SomeD [OF newMap_entry [OF this]] show "k = name t" by auto
    qed
    then show ?thesis by (auto simp: uniqueByName_def)
  qed
  then show ?thesis by (simp add: keys_newMap comp_def)
qed

lemma subseq_firstOccs: "subseq (firstOccs s xs) xs"
  by (induction xs arbitrary: s) auto

lemma subseq_firstOccurrences: "subseq (firstOccurrences xs) xs"
  by (simp add: firstOccurrences_def subseq_firstOccs)

lemma set_uniqueByName: "set (uniqueByName ts) \<subseteq> set ts"
  using uniqueByName_last by blast

subsection \<open>The filter\<close>

lemma filterRelevantTools_unfold:
  "filterRelevantTools L allTools msg maxTools =
     take maxTools (uniqueByName
       (filter (\<lambda>t. getToolCategory (name t) \<in> set (detectRelevantCategories L msg)) allTools))"
  by (simp add: filterRelevantTools_def)

lemma filterRelevantTools_names:
  "map name (filterRelevantTools L allTools msg maxTools) =
     take maxTools (firstOccurrences (map name
       (filter (\<lambda>t. getToolCategory (name t) \<in> set (detectRelevantCategories L msg)) allTools)))"
  unfolding filterRelevantTools_unfold take_map [symmetric] names_uniqueByName ..

lemma filterRelevantTools_subset:
  "set (filterRelevantTools L allTools msg maxTools) \<subseteq> set allTools"
proof -
  have "set (filterRelevantTools L allTools msg maxTools)
      \<subseteq> set (uniqueByName
          (filter (\<lambda>t. getToolCategory (name t) \<in> set (detectRelevantCategories L msg)) allTools))"
    unfolding filterRelevantTools_unfold by (rule set_take_subset)
  also have "\<dots> \<subseteq> set (filter (\<lambda>t. getToolCategory (name t) \<in> set (detectRelevantCategories L msg)) allTools)"
    by (rule set_uniqueByName)
  also have "\<dots> \<subseteq> set allTools" by simp
  finally show ?thesis .
qed

lemma filterRelevantTools_relevant:
  assumes "t \<in> set (filterRelevantTools L allTools msg maxTools)"
  shows "getToolCategory (name t) \<in> set (detectRelevantCategories L msg)"
proof -
  from assms have "t \<in> set (uniqueByName
      (filter (\<lambda>t. getToolCategory (name t) \<in> set (detectRelevantCategories L msg)) allTools))"
    unfolding filterRelevantTools_unfold by (rule in_set_takeD)
  with set_uniqueByName show ?thesis by fastforce
qed

lemma filterRelevantTools_subseq:
  "subseq (map name (filterRelevantTools L allTools msg maxTools)) (map name allTools)"
proof -
  let ?rel = "filter (\<lambda>t. getToolCategory (name t) \<in> set (detectRelevantCategories L msg)) allTools"
  have "subseq (take maxTools (firstOccurrences (map name ?rel))) (firstOccurrences (map name ?rel))"
    by (metis append_take_drop_id prefix_def prefix_imp_subseq)
  also have "subseq (firstOccurrences (map name ?rel)) (map name ?rel)"
    by (rule subseq_firstOccurrences)
  also have "subseq (map name ?rel) (map name allTools)"
    by (simp add: subseq_map)
  finally show ?thesis by (simp add: filterRelevantTools_names)
qed

lemma detect_default:
  "matchedCategories L msg = [] \<Longrightarrow> set (detectRelevantCategories L msg) = {House, Room, Tenant, Invoice}"
  by (simp add: detectRelevantCategories_def defaultCategories_def)

lemma firstOccs_distinct_id:
  "distinct xs \<Longrightarrow> set xs \<inter> set s = {} \<Longrightarrow> firstOccs s xs = xs"
  by (induction xs arbitrary: s) auto

lemma uniqueByName_distinct:
  assumes "distinct (map name ts)"
  shows "uniqueByName ts = ts"
proof (rule map_inj_on)
  show "map name (uniqueByName ts) = map name ts"
    using assms by (simp add: names_uniqueByName firstOccurrences_def firstOccs_distinct_id)
  have "inj_on name (set ts)" using assms by (simp add: distinct_map)
  moreover have "set (uniqueByName ts) \<union> set ts = set ts" using set_uniqueByName by blast
  ultimately show "inj_on name (set (uniqueByName ts) \<union> set ts)" by simp
qed

lemma filterRelevantTools_distinct:
  assumes "distinct (map name allTools)"
  shows "filterRelevantTools L allTools msg maxTools
           = take maxTools (filter (\<lambda>t. getToolCategory (name t)
                                          \<in> set (detectRelevantCategories L msg)) allTools)
       \<and> subseq (filterRelevantTools L allTools msg maxTools) allTools"
proof -
  let ?rel = "filter (\<lambda>t. getToolCategory (name t) \<in> set (detectRelevantCategories L msg)) allTools"
  have "distinct (map name ?rel)" using assms by (rule distinct_map_filter)
  then have e: "filterRelevantTools L allTools msg maxTools = take maxTools ?rel"
    by (simp add: filterRelevantTools_unfold uniqueByName_distinct)
  have "subseq (take maxTools ?rel) ?rel"
    by (metis append_take_drop_id prefix_def prefix_imp_subseq)
  also have "subseq ?rel allTools" by simp
  finally show ?thesis using e by simp
qed

text \<open>
  C4. For every catalog, message and cap: the output holds at most \<open>maxTools\<close> descriptors,
  each of them an element of the input catalog; the output's names are the first
  \<open>maxTools\<close> names of the category-relevant tools in order of first appearance (so they
  appear in catalog order); when the message matches no keyword category, the output
  is drawn from exactly the tools of the default categories house, room, tenant, invoice;
  and for a catalog without repeated names the output is the first \<open>maxTools\<close> relevant
  descriptors themselves, a subsequence of the catalog.
\<close>

theorem filterRelevantTools_contract:
  "length (filterRelevantTools L allTools msg maxTools) \<le> maxTools
   \<and> set (filterRelevantTools L allTools msg maxTools) \<subseteq> set allTools
   \<and> map name (filterRelevantTools L allTools msg maxTools)
       = take maxTools (firstOccurrences (map name
           (filter (\<lambda>t. getToolCategory (name t) \<in> set (detectRelevantCategories L msg)) allTools)))
   \<and> subseq (map name (filterRelevantTools L allTools msg maxTools)) (map name allTools)
   \<and> (matchedCategories L msg = [] \<longrightarrow>
        filterRelevantTools L allTools msg maxTools
          = take maxTools (uniqueByName
              (filter (\<lambda>t. getToolCategory (name t) \<in> {House, Room, Tenant, Invoice}) allTools))
        \<and> (\<forall>t \<in> set (filterRelevantTools L allTools msg maxTools).
              getToolCategory (name t) \<in> {House, Room, Tenant, Invoice}))
   \<and> (distinct (map name allTools) \<longrightarrow>
        filterRelevantTools L allTools msg maxTools
          = take maxTools (filter (\<lambda>t. getToolCategory (name t)
                                         \<in> set (detectRelevantCategories L msg)) allTools)
        \<and> subseq (filterRelevantTools L allTools msg maxTools) allTools)"
proof -
  have dist: "distinct (map name allTools) \<longrightarrow>
        filterRelevantTools L allTools msg maxTools
          = take maxTools (filter (\<lambda>t. getToolCategory (name t)
                                         \<in> set (detectRelevantCategories L msg)) allTools)
        \<and> subseq (filterRelevantTools L allTools msg maxTools) allTools"
    using filterRelevantTools_distinct [of allTools L msg maxTools] ..
  have len: "length (filterRelevantTools L allTools msg maxTools) \<le> maxTools"
    by (simp add: filterRelevantTools_unfold)
  have dflt: "matchedCategories L msg = [] \<longrightarrow>
        filterRelevantTools L allTools msg maxTools
          = take maxTools (uniqueByName
              (filter (\<lambda>t. getToolCategory (name t) \<in> {House, Room, Tenant, Invoice}) allTools))
        \<and> (\<forall>t \<in> set (filterRelevantTools L allTools msg maxTools).
              getToolCategory (name t) \<in> {House, Room, Tenant, Invoice})"
  proof
    assume m: "matchedCategories L msg = []"
    have eq: "filterRelevantTools L allTools msg maxTools
          = take maxTools (uniqueByName
              (filter (\<lambda>t. getToolCategory (name t) \<in> {House, Room, Tenant, Invoice}) allTools))"
      unfolding filterRelevantTools_unfold detect_default [OF m] ..
    have "\<forall>t \<in> set (filterRelevantTools L allTools msg maxTools).
              getToolCategory (name t) \<in> {House, Room, Tenant, Invoice}"
      using filterRelevantTools_relevant [of _ L allTools msg maxTools]
      unfolding detect_default [OF m] by blast
    with eq show "filterRelevantTools L allTools msg maxTools
          = take maxTools (uniqueByName
              (filter (\<lambda>t. getToolCategory (name t) \<in> {House, Room, Tenant, Invoice}) allTools))
        \<and> (\<forall>t \<in> set (filterRelevantTools L allTools msg maxTools).
              getToolCategory (name t) \<in> {House, Room, Tenant, Invoice})" ..
  qed
  show ?thesis
    by (rule conjI [OF len conjI [OF filterRelevantTools_subset
          conjI [OF filterRelevantTools_names conjI [OF filterRelevantTools_subseq
            conjI [OF dflt dist]]]]])
qed

lemma no_category_example: "matchedCategories jsRuntime (ascii ''xyz'') = []"
  by code_simp

text \<open>
  The message \<open>xyz\<close> matches no keyword; of six tools, two of them named \<open>get_house\<close>, the
  filter with cap \<open>2\<close> keeps the default-category names \<open>get_house\<close> and \<open>get_room\<close>.
  Of four tools with different names it keeps the descriptors of \<open>get_house\<close> and
  \<open>get_room\<close> in catalog order.
\<close>

theorem filterRelevantTools_contract_witness:
  "matchedCategories jsRuntime (ascii ''xyz'') = []
   \<and> filterRelevantTools jsRuntime
        [mkTool ''login'' ''a'', mkTool ''get_house'' ''b'', mkTool ''create_service'' ''c'',
         mkTool ''get_room'' ''d'', mkTool ''get_house'' ''e'', mkTool ''get_invoice'' ''f'']
        (ascii ''xyz'') 2
      = [mkTool ''get_house'' ''e'', mkTool ''get_room'' ''d'']
   \<and> distinct (map name [mkTool ''login'' ''a'', mkTool ''get_house'' ''b'',
                          mkTool ''get_room'' ''d'', mkTool ''get_invoice'' ''f''])
   \<and> filterRelevantTools jsRuntime
        [mkTool ''login'' ''a'', mkTool ''get_house'' ''b'',
         mkTool ''get_room'' ''d'', mkTool ''get_invoice'' ''f'']
        (ascii ''xyz'') 2
      = [mkTool ''get_house'' ''b'', mkTool ''get_room'' ''d'']"
proof -
  let ?ts = "[mkTool ''login'' ''a'', mkTool ''get_house'' ''b'', mkTool ''create_service'' ''c'',
         mkTool ''get_room'' ''d'', mkTool ''get_house'' ''e'', mkTool ''get_invoice'' ''f'']"
  let ?us = "[mkTool ''login'' ''a'', mkTool ''get_house'' ''b'',
         mkTool ''get_room'' ''d'', mkTool ''get_invoice'' ''f'']"
  have v: "take 2 (uniqueByName
              (filter (\<lambda>t. getToolCategory (name t) \<in> {House, Room, Tenant, Invoice}) ?ts))
      = [mkTool ''get_house'' ''e'', mkTool ''get_room'' ''d'']"
    by code_simp
  note c = filterRelevantTools_contract [of jsRuntime ?ts "ascii ''xyz''" 2,
      THEN conjunct2, THEN conjunct2, THEN conjunct2, THEN conjunct2, THEN conjunct1, THEN mp,
      OF no_category_example, THEN conjunct1]
  have d: "distinct (map name ?us)" by code_simp
  have w: "take 2 (filter (\<lambda>t. getToolCategory (name t)
                \<in> set (detectRelevantCategories jsRuntime (ascii ''xyz''))) ?us)
      = [mkTool ''get_house'' ''b'', mkTool ''get_room'' ''d'']"
    by code_simp
  note e = filterRelevantTools_contract [of jsRuntime ?us "ascii ''xyz''" 2,
      THEN conjunct2, THEN conjunct2, THEN conjunct2, THEN conjunct2, THEN conjunct2, THEN mp,
      OF d, THEN conjunct1]
  show ?thesis
    by (rule conjI [OF no_category_example conjI [OF trans [OF c v] conjI [OF d trans [OF e w]]]])
qed

subsection \<open>The name classifier\<close>

text \<open>
  C5, as stated, fails: \<open>add_service_to_room\<close> contains both \<open>room\<close> and \<open>service\<close> and
  is classified as room.
\<close>

theorem getToolCategory_counterexample:
  "js_includes (ascii ''add_service_to_room'') (ascii ''room'')
   \<and> js_includes (ascii ''add_service_to_room'') (ascii ''service'')
   \<and> getToolCategory (ascii ''add_service_to_room'') = Room
   \<and> getToolCategory (ascii ''add_service_to_room'') \<noteq> Service"
  by code_simp

text \<open>
  C5, amended. The classifier is a function of the name that tests fixed substrings in a
  fixed order. A name that contains \<open>room_service\<close> is never classified as room, and it
  is classified as service unless it also contains one of the substrings tested before
  service: \<open>login\<close>, \<open>register\<close>, \<open>auth\<close>, \<open>refresh_token\<close>, \<open>house\<close>, \<open>tenant\<close>,
  \<open>contract\<close>.
\<close>

theorem getToolCategory_room_service:
  assumes "js_includes n (ascii ''room_service'')"
  shows "getToolCategory n \<noteq> Room
       \<and> (\<not> js_includes n (ascii ''login'') \<and> \<not> js_includes n (ascii ''register'')
          \<and> \<not> js_includes n (ascii ''auth'') \<and> \<not> js_includes n (ascii ''refresh_token'')
          \<and> \<not> js_includes n (ascii ''house'') \<and> \<not> js_includes n (ascii ''tenant'')
          \<and> \<not> js_includes n (ascii ''contract'')
          \<longrightarrow> getToolCategory n = Service)"
  using assms by (simp add: getToolCategory_def)

theorem getToolCategory_room_service_witness:
  "js_includes (ascii ''get_room_service'') (ascii ''room_service'')
   \<and> getToolCategory (ascii ''get_room_service'') = Service"
proof -
  let ?n = "ascii ''get_room_service''"
  have h: "js_includes ?n (ascii ''room_service'')" by code_simp
  have g: "\<not> js_includes ?n (ascii ''login'') \<and> \<not> js_includes ?n (ascii ''register'')
          \<and> \<not> js_includes ?n (ascii ''auth'') \<and> \<not> js_includes ?n (ascii ''refresh_token'')
          \<and> \<not> js_includes ?n (ascii ''house'') \<and> \<not> js_includes ?n (ascii ''tenant'')
          \<and> \<not> js_includes ?n (ascii ''contract'')"
    by code_simp
  note c = getToolCategory_room_service [OF h, THEN conjunct2, THEN mp, OF g]
  show ?thesis by (rule conjI [OF h c])
qed

subsection \<open>De-duplication by name\<close>

lemma dup_example:
  "filterRelevantTools jsRuntime [mkTool ''get_room'' ''first'', mkTool ''get_room'' ''second'']
     (ascii ''room'') 15 = [mkTool ''get_room'' ''second'']"
  by code_simp

text \<open>
  C6, as stated, fails: of two descriptors named \<open>get_room\<close> the filter returns the
  second, not the first.
\<close>

theorem filterRelevantTools_first_wins_counterexample:
  "filterRelevantTools jsRuntime [mkTool ''get_room'' ''first'', mkTool ''get_room'' ''second'']
     (ascii ''room'') 15 = [mkTool ''get_room'' ''second'']
   \<and> name (mkTool ''get_room'' ''first'') = name (mkTool ''get_room'' ''second'')
   \<and> mkTool ''get_room'' ''first'' \<noteq> mkTool ''get_room'' ''second''
   \<and> mkTool ''get_room'' ''first''
       \<notin> set (filterRelevantTools jsRuntime
                [mkTool ''get_room'' ''first'', mkTool ''get_room'' ''second''] (ascii ''room'') 15)"
proof -
  have n: "name (mkTool ''get_room'' ''first'') = name (mkTool ''get_room'' ''second'')"
    by (simp add: mkTool_def)
  have d: "mkTool ''get_room'' ''first'' \<noteq> mkTool ''get_room'' ''second''"
    by (simp add: mkTool_def ascii_def)
  show ?thesis unfolding dup_example using n d by simp
qed

text \<open>
  C6, amended. When the filter de-duplicates by name, the last occurrence wins: every
  descriptor of the output is the last descriptor of the input catalog that bears its
  name, and no name occurs twice in the output. (Its place in the output is that of the
  name's first relevant occurrence, see C4.)
\<close>

theorem filterRelevantTools_last_wins:
  "(\<forall>t \<in> set (filterRelevantTools L allTools msg maxTools).
       t = last (filter (\<lambda>u. name u = name t) allTools))
   \<and> distinct (map name (filterRelevantTools L allTools msg maxTools))"
proof -
  let ?P = "\<lambda>t. getToolCategory (name t) \<in> set (detectRelevantCategories L msg)"
  have "t = last (filter (\<lambda>u. name u = name t) allTools)"
    if t: "t \<in> set (filterRelevantTools L allTools msg maxTools)" for t
  proof -
    from t have u: "t \<in> set (uniqueByName (filter ?P allTools))"
      unfolding filterRelevantTools_unfold by (rule in_set_takeD)
    have rel: "?P t" using filterRelevantTools_relevant [OF t] .
    have "filter (\<lambda>u. name u = name t) (filter ?P allTools)
        = filter (\<lambda>u. name u = name t) allTools"
      unfolding filter_filter by (rule filter_cong) (use rel in auto)
    with uniqueByName_last [OF u] show ?thesis by simp
  qed
  moreover have "distinct (map name (filterRelevantTools L allTools msg maxTools))"
    unfolding filterRelevantTools_names
    by (simp add: firstOccurrences_def firstOccs_distinct distinct_take)
  ultimately show ?thesis by blast
qed

theorem filterRelevantTools_last_wins_witness:
  "mkTool ''get_room'' ''second''
     \<in> set (filterRelevantTools jsRuntime
              [mkTool ''get_room'' ''first'', mkTool ''get_room'' ''second''] (ascii ''room'') 15)
   \<and> mkTool ''get_room'' ''second''
       = last (filter (\<lambda>u. name u = name (mkTool ''get_room'' ''second''))
                 [mkTool ''get_room'' ''first'', mkTool ''get_room'' ''second''])"
proof -
  have m: "mkTool ''get_room'' ''second''
     \<in> set (filterRelevantTools jsRuntime
              [mkTool ''get_room'' ''first'', mkTool ''get_room'' ''second''] (ascii ''room'') 15)"
    unfolding dup_example by simp
  note c = filterRelevantTools_last_wins [of jsRuntime
      "[mkTool ''get_room'' ''first'', mkTool ''get_room'' ''second'']" "ascii ''room''" 15,
      THEN conjunct1, THEN bspec, OF m]
  show ?thesis by (rule conjI [OF m c])
qed

section \<open>Properties of the Tool-Call Extractor\<close>

subsection \<open>Strings\<close>



lemma dropWhile_hd: "xs \<noteq> [] \<Longrightarrow> \<not> P (hd xs) \<Longrightarrow> dropWhile P xs = xs"
  by (cases xs) auto

lemma startsWith_hd: "startsWith xs (p # ps) \<Longrightarrow> xs \<noteq> [] \<and> hd xs = p"
  by (cases xs) auto

lemma trim_id:
  assumes "s \<noteq> []" "\<not> isWhiteSpace (hd s)" "\<not> isWhiteSpace (last s)"
  shows "trim s = s"
proof -
  have a: "dropWhile isWhiteSpace s = s" using assms by (cases s) auto
  have "rev s \<noteq> []" "hd (rev s) = last s" using assms by (simp_all add: hd_rev)
  then have b: "dropWhile isWhiteSpace (rev s) = rev s" using assms by (simp add: dropWhile_hd)
  show ?thesis by (simp add: trim_def a b)
qed

lemma stripLeadingFence_id: "s \<noteq> [] \<Longrightarrow> hd s \<noteq> 96 \<Longrightarrow> stripLeadingFence s = s"
  by (cases s) (auto simp: stripLeadingFence_def fence_def ascii_def)

lemma stripTrailingFence_id:
  assumes "s \<noteq> []" "\<not> isWhiteSpace (last s)" "last s \<noteq> 96"
  shows "stripTrailingFence s = s"
proof -
  have r: "rev s \<noteq> []" "hd (rev s) = last s" using assms by (simp_all add: hd_rev)
  then have b: "dropWhile isWhiteSpace (rev s) = rev s" using assms by (simp add: dropWhile_hd)
  have "\<not> startsWith (rev s) fence"
  proof
    assume "startsWith (rev s) fence"
    then have "hd (rev s) = 96" using startsWith_hd [of "rev s" 96 "[96, 96]"]
      by (simp add: fence_def ascii_def)
    with r assms show False by simp
  qed
  then show ?thesis by (simp add: stripTrailingFence_def b)
qed

lemma cleanContent_id:
  assumes "s \<noteq> []" "\<not> isWhiteSpace (hd s)" "\<not> isWhiteSpace (last s)" "hd s \<noteq> 96" "last s \<noteq> 96"
  shows "cleanContent s = s"
  using assms by (simp add: cleanContent_def trim_id stripLeadingFence_id stripTrailingFence_id)

lemma stringify_obj_shape:
  "JSON_stringify (JObj kvs) \<noteq> [] \<and> hd (JSON_stringify (JObj kvs)) = 123
     \<and> last (JSON_stringify (JObj kvs)) = 125"
  by simp

lemma not_ws_braces: "\<not> isWhiteSpace 123" "\<not> isWhiteSpace 125"
  by (simp_all add: isWhiteSpace_def)

lemma cleanContent_stringify_obj:
  "cleanContent (JSON_stringify (JObj kvs)) = JSON_stringify (JObj kvs)"
  using stringify_obj_shape [of kvs] by (intro cleanContent_id) (simp_all add: not_ws_braces)

text \<open>
  C7. Round trip: for every known, non-empty tool name and every argument object, the
  text \<open>JSON.stringify({tool: name, args: args})\<close>, which \<open>JSON.parse\<close> reads back as
  the same object, is extracted as the call of that name with those arguments.
\<close>

theorem extractor_roundtrip:
  assumes "nm \<in> set known" and "nm \<noteq> []"
    and "JSON_parse L (JSON_stringify (JObj [(ascii ''tool'', JStr nm), (ascii ''args'', JObj kvs)]))
           = Some (JObj [(ascii ''tool'', JStr nm), (ascii ''args'', JObj kvs)])"
  shows "parseToolCallFromContent L
           (JSON_stringify (JObj [(ascii ''tool'', JStr nm), (ascii ''args'', JObj kvs)])) known
         = Some \<lparr>tcName = nm, tcArguments = JObj kvs\<rparr>"
proof -
  let ?v = "JObj [(ascii ''tool'', JStr nm), (ascii ''args'', JObj kvs)]"
  have ne: "JSON_stringify ?v \<noteq> []" using stringify_obj_shape by blast
  have k: "known \<noteq> []" using assms(1) by auto
  have keys: "ascii ''tool'' \<noteq> ascii ''args''" by (simp add: ascii_def)
  have c: "callFromParsed L known ?v = Some \<lparr>tcName = nm, tcArguments = JObj kvs\<rparr>"
    using assms(1,2) keys by (simp add: callFromParsed_def orElse_def)
  have s1: "strategy1 L (JSON_stringify ?v) known = Some \<lparr>tcName = nm, tcArguments = JObj kvs\<rparr>"
    unfolding strategy1_def assms(3) using c by simp
  show ?thesis
    unfolding parseToolCallFromContent_def cleanContent_stringify_obj Let_def
    using ne k s1 by simp
qed

lemma roundtrip_example:
  "jsonParse (JSON_stringify (JObj [(ascii ''tool'', JStr (ascii ''get_room'')),
       (ascii ''args'', JObj [(ascii ''houseId'', JNum 1), (ascii ''status'', JStr (ascii ''AVAILABLE''))])]))
   = Some (JObj [(ascii ''tool'', JStr (ascii ''get_room'')),
       (ascii ''args'', JObj [(ascii ''houseId'', JNum 1), (ascii ''status'', JStr (ascii ''AVAILABLE''))])])"
  by code_simp

theorem extractor_roundtrip_witness:
  "JSON_stringify (JObj [(ascii ''tool'', JStr (ascii ''get_room'')),
       (ascii ''args'', JObj [(ascii ''houseId'', JNum 1), (ascii ''status'', JStr (ascii ''AVAILABLE''))])])
     = ascii ''{'' @ quoted ''tool'' @ ascii '':'' @ quoted ''get_room'' @ ascii '','' @ quoted ''args''
       @ ascii '':{'' @ quoted ''houseId'' @ ascii '':1,'' @ quoted ''status'' @ ascii '':''
       @ quoted ''AVAILABLE'' @ ascii ''}}''
   \<and> parseToolCallFromContent jsRuntime
       (JSON_stringify (JObj [(ascii ''tool'', JStr (ascii ''get_room'')),
          (ascii ''args'', JObj [(ascii ''houseId'', JNum 1), (ascii ''status'', JStr (ascii ''AVAILABLE''))])]))
       [ascii ''get_house'', ascii ''get_room'']
     = Some \<lparr>tcName = ascii ''get_room'',
            tcArguments = JObj [(ascii ''houseId'', JNum 1), (ascii ''status'', JStr (ascii ''AVAILABLE''))]\<rparr>"
proof -
  have t: "JSON_stringify (JObj [(ascii ''tool'', JStr (ascii ''get_room'')),
       (ascii ''args'', JObj [(ascii ''houseId'', JNum 1), (ascii ''status'', JStr (ascii ''AVAILABLE''))])])
     = ascii ''{'' @ quoted ''tool'' @ ascii '':'' @ quoted ''get_room'' @ ascii '','' @ quoted ''args''
       @ ascii '':{'' @ quoted ''houseId'' @ ascii '':1,'' @ quoted ''status'' @ ascii '':''
       @ quoted ''AVAILABLE'' @ ascii ''}}''"
    by code_simp
  have k: "ascii ''get_room'' \<in> set [ascii ''get_house'', ascii ''get_room'']" by simp
  have n: "ascii ''get_room'' \<noteq> []" by (simp add: ascii_def)
  have p: "JSON_parse jsRuntime (JSON_stringify (JObj [(ascii ''tool'', JStr (ascii ''get_room'')),
       (ascii ''args'', JObj [(ascii ''houseId'', JNum 1), (ascii ''status'', JStr (ascii ''AVAILABLE''))])]))
   = Some (JObj [(ascii ''tool'', JStr (ascii ''get_room'')),
       (ascii ''args'', JObj [(ascii ''houseId'', JNum 1), (ascii ''status'', JStr (ascii ''AVAILABLE''))])])"
    using roundtrip_example by (simp add: jsRuntime_def)
  show ?thesis by (rule conjI [OF t extractor_roundtrip [OF k n p]])
qed

subsection \<open>The substring fallback\<close>

lemma strategy3_find:
  "strategy3 L cleaned known =
     map_option (\<lambda>nm. \<lparr>tcName = nm, tcArguments = argsAfter L cleaned nm\<rparr>)
       (find (\<lambda>n. js_includes cleaned n) known)"
  by (induction known) auto

text \<open>
  C10. In the substring fallback (no JSON candidate names a known tool), the returned
  tool is the first name of the known-tool list that occurs in the cleaned text, whatever
  its position in the text; and when the brace-delimited span behind that name is missing
  or does not parse, the returned arguments are the empty object.
\<close>

theorem extractor_fallback:
  assumes "content \<noteq> []"
    and "strategy1 L (cleanContent content) known = None"
    and "strategy2 L (cleanContent content) known = None"
    and "find (\<lambda>n. js_includes (cleanContent content) n) known = Some nm"
  shows "parseToolCallFromContent L content known
           = Some \<lparr>tcName = nm, tcArguments = argsAfter L (cleanContent content) nm\<rparr>
       \<and> ((\<forall>m. matchBraces (fromIndexOf (cleanContent content) nm) = Some m
               \<longrightarrow> JSON_parse L m = None)
            \<longrightarrow> argsAfter L (cleanContent content) nm = JObj [])"
proof -
  have k: "known \<noteq> []" using assms(4) by auto
  have r: "parseToolCallFromContent L content known
           = Some \<lparr>tcName = nm, tcArguments = argsAfter L (cleanContent content) nm\<rparr>"
    using assms k by (simp add: parseToolCallFromContent_def strategy3_find)
  have e: "(\<forall>m. matchBraces (fromIndexOf (cleanContent content) nm) = Some m
               \<longrightarrow> JSON_parse L m = None)
            \<longrightarrow> argsAfter L (cleanContent content) nm = JObj []"
    by (auto simp: argsAfter_def split: option.splits)
  show ?thesis by (rule conjI [OF r e])
qed

text \<open>
  With the known tools listed as \<open>get_room\<close>, \<open>get_house\<close>, a reply that mentions
  \<open>get_house\<close> before \<open>get_room\<close> and holds no braces yields \<open>get_room\<close> with empty
  arguments.
\<close>

lemma fallback_example:
  "fallbackText \<noteq> []"
  "strategy1 jsRuntime (cleanContent fallbackText) [ascii ''get_room'', ascii ''get_house''] = None"
  "strategy2 jsRuntime (cleanContent fallbackText) [ascii ''get_room'', ascii ''get_house''] = None"
  "find (\<lambda>n. js_includes (cleanContent fallbackText) n) [ascii ''get_room'', ascii ''get_house'']
     = Some (ascii ''get_room'')"
  "matchBraces (fromIndexOf (cleanContent fallbackText) (ascii ''get_room'')) = None"
  "length (fromIndexOf fallbackText (ascii ''get_room''))
     < length (fromIndexOf fallbackText (ascii ''get_house''))"
  by code_simp+

theorem extractor_fallback_witness:
  "parseToolCallFromContent jsRuntime fallbackText [ascii ''get_room'', ascii ''get_house'']
     = Some \<lparr>tcName = ascii ''get_room'', tcArguments = JObj []\<rparr>
   \<and> length (fromIndexOf fallbackText (ascii ''get_room''))
     < length (fromIndexOf fallbackText (ascii ''get_house''))"
proof -
  note c = extractor_fallback [OF fallback_example(1-4)]
  have "argsAfter jsRuntime (cleanContent fallbackText) (ascii ''get_room'') = JObj []"
    by (rule c [THEN conjunct2, THEN mp]) (simp add: fallback_example(5))
  with c [THEN conjunct1] fallback_example(6) show ?thesis by simp
qed

subsection \<open>Robustness against surrounding prose\<close>








lemma set_drop_subset': "set (drop n xs) \<subseteq> set xs"
  by (rule set_drop_subset)






























lemma unknown_candidates:
  "extractBalancedJsonObjects (cleanContent unknownText)
     = [ascii ''{'' @ quoted ''tool'' @ ascii '':'' @ quoted ''rm_rf''
         @ ascii '','' @ quoted ''args'' @ ascii '':{}}'']
   \<and> JSON_parse jsRuntime (ascii ''{'' @ quoted ''tool'' @ ascii '':'' @ quoted ''rm_rf''
         @ ascii '','' @ quoted ''args'' @ ascii '':{}}'')
       = Some (JObj [(ascii ''tool'', JStr (ascii ''rm_rf'')), (ascii ''args'', JObj [])])"
  by code_simp

text \<open>The reply with the escaped name is outside the second half: its name is not spelled out.\<close>

lemma escaped_example:
  "JSON_parse jsRuntime escapedText = Some (JObj [(ascii ''tool'', JStr (ascii ''get_room''))])
   \<and> toolNameOf (JObj [(ascii ''tool'', JStr (ascii ''get_room''))]) = Some (JStr (ascii ''get_room''))
   \<and> \<not> js_includes escapedText (ascii ''get_room'')"
  by code_simp


section \<open>Properties of the Agent Orchestrator\<close>

lemma invocations_append [simp]: "invocations (a @ b) = invocations a + invocations b"
  by (simp add: invocations_def)

lemma invocations_single [simp]:
  "invocations [EvChat r] = 0" "invocations [EvListTools] = 0" "invocations [EvInvoke n a h] = 1"
  by (simp_all add: invocations_def)

lemma callOllama_trace:
  "snd (callOllamaWithTools L w now msgs tools temp tr)
     = tr @ [EvChat \<lparr>reqMessages = messagesWithTools msgs tools, reqTemperature = temp\<rparr>]"
  by (simp add: callOllamaWithTools_def Let_def split: sum.splits option.splits)

lemma callOllama_invocations:
  "callOllamaWithTools L w now msgs tools temp tr = (r, tr') \<Longrightarrow> invocations tr' = invocations tr"
  using callOllama_trace [of L w now msgs tools temp tr] by simp

lemma executeOne_invocations:
  "executeOne L w ctx n tc tr = (r, tr') \<Longrightarrow>
     invocations tr' = invocations tr \<or> invocations tr' = invocations tr + 1"
  by (auto simp: executeOne_def executeMcpTool_def Let_def
      split: option.splits sum.splits json.splits prod.splits if_splits)

lemma executeToolCalls_length:
  "length (fst (executeToolCalls L w ctx cap calls results executed tr))
     = length results + min (length calls) (nat (cap - int executed))"
proof (induction calls arbitrary: results executed tr)
  case Nil
  show ?case by simp
next
  case (Cons tc rest)
  show ?case
  proof (cases "int executed \<ge> cap")
    case True
    then show ?thesis by simp
  next
    case False
    obtain r tr' where e: "executeOne L w ctx executed tc tr = (r, tr')" by (cases "executeOne L w ctx executed tc tr")
    have "nat (cap - int executed) = Suc (nat (cap - int (executed + 1)))" using False by simp
    with False e Cons.IH [of "results @ [r]" "executed + 1" tr'] show ?thesis by simp
  qed
qed

lemma executeToolCalls_take:
  "executeToolCalls L w ctx cap calls results executed tr
     = executeToolCalls L w ctx cap (take (nat (cap - int executed)) calls) results executed tr"
proof (induction calls arbitrary: results executed tr)
  case Nil
  show ?case by simp
next
  case (Cons tc rest)
  show ?case
  proof (cases "int executed \<ge> cap")
    case True
    then show ?thesis by simp
  next
    case False
    obtain r tr' where e: "executeOne L w ctx executed tc tr = (r, tr')" by (cases "executeOne L w ctx executed tc tr")
    have n: "nat (cap - int executed) = Suc (nat (cap - int (executed + 1)))" using False by simp
    show ?thesis
      unfolding n using False e Cons.IH [of "results @ [r]" "executed + 1" tr'] by simp
  qed
qed

lemma executeToolCalls_invocations:
  "invocations (snd (executeToolCalls L w ctx cap calls results executed tr))
     \<le> invocations tr + min (length calls) (nat (cap - int executed))"
proof (induction calls arbitrary: results executed tr)
  case Nil
  show ?case by simp
next
  case (Cons tc rest)
  show ?case
  proof (cases "int executed \<ge> cap")
    case True
    then show ?thesis by simp
  next
    case False
    obtain r tr' where e: "executeOne L w ctx executed tc tr = (r, tr')" by (cases "executeOne L w ctx executed tc tr")
    have n: "nat (cap - int executed) = Suc (nat (cap - int (executed + 1)))" using False by simp
    have "invocations tr' \<le> invocations tr + 1" using executeOne_invocations [OF e] by auto
    with False e Cons.IH [of "results @ [r]" "executed + 1" tr'] n show ?thesis by simp
  qed
qed

lemma invokeEvents_simps [simp]:
  "invokeEvents L ctx [] = []"
  "invokeEvents L ctx (c # d # cs) = invokeEvents L ctx [c] @ invokeEvents L ctx (d # cs)"
  "invokeEvents L ctx (xs @ ys) = invokeEvents L ctx xs @ invokeEvents L ctx ys"
  by (simp_all add: invokeEvents_def)

lemma invokeEvents_Cons:
  "invokeEvents L ctx (c # cs) = invokeEvents L ctx [c] @ invokeEvents L ctx cs"
  by (simp add: invokeEvents_def)

lemma executeOne_result:
  "fst (executeOne L w ctx n c tr) =
     (case callRequest L c of
        Inl msg \<Rightarrow>
          \<lparr>resId = (case orString (callId c) None of
                      Some i \<Rightarrow> i | None \<Rightarrow> ascii ''call_'' @ intToString (int n)),
           resName = (case callFunction c of
                        None \<Rightarrow> ascii ''unknown''
                      | Some f \<Rightarrow> if fnName f = [] then ascii ''unknown'' else fnName f),
           resArgs = None, resResult = None, resError = Some msg\<rparr>
      | Inr (toolName, toolArgs) \<Rightarrow>
          \<lparr>resId = (case orString (callId c) None of
                      Some i \<Rightarrow> i | None \<Rightarrow> ascii ''call_'' @ intToString (int n)),
           resName = toolName, resArgs = Some toolArgs,
           resResult = Some (case mcpInvoke w tr toolName toolArgs (authHeaders ctx) of
                               Inr data \<Rightarrow> data
                             | Inl msg \<Rightarrow> JObj [(ascii ''success'', JBool False),
                                                  (ascii ''error'', JStr msg)]),
           resError = None\<rparr>)"
proof (cases "callFunction c")
  case None
  then show ?thesis by (simp add: executeOne_def callRequest_def)
next
  case (Some f)
  have m: "fst (executeMcpTool w nm a ctx tr)
             = (case mcpInvoke w tr nm a (authHeaders ctx) of
                  Inr data \<Rightarrow> data
                | Inl msg \<Rightarrow> JObj [(ascii ''success'', JBool False), (ascii ''error'', JStr msg)])"
    for nm a
    by (simp add: executeMcpTool_def Let_def split: sum.splits)
  show ?thesis
  proof (cases "fnArguments f")
    case None
    with Some m show ?thesis
      by (simp add: executeOne_def callRequest_def case_prod_beta)
  next
    case (Some v)
    note v = this
    show ?thesis
    proof (cases "\<exists>s. v = JStr s")
      case True
      then obtain s where s: "v = JStr s" by blast
      show ?thesis
      proof (cases "JSON_parse L (if s = [] then ascii ''{}'' else s)")
        case None
        with \<open>callFunction c = Some f\<close> v s show ?thesis
          by (simp add: executeOne_def callRequest_def Let_def)
      next
        case (Some a)
        with \<open>callFunction c = Some f\<close> v s m show ?thesis
          by (simp add: executeOne_def callRequest_def Let_def case_prod_beta)
      qed
    next
      case False
      with \<open>callFunction c = Some f\<close> v m show ?thesis
        by (cases v) (simp_all add: executeOne_def callRequest_def case_prod_beta)
    qed
  qed
qed

lemma executeOne_trace:
  "snd (executeOne L w ctx n c tr) = tr @ invokeEvents L ctx [c]"
proof (cases "callFunction c")
  case None
  then show ?thesis by (simp add: executeOne_def callRequest_def invokeEvents_def)
next
  case (Some f)
  have m: "snd (executeMcpTool w nm a ctx tr) = tr @ [EvInvoke nm a (authHeaders ctx)]" for nm a
    by (simp add: executeMcpTool_def Let_def split: sum.splits)
  show ?thesis
  proof (cases "fnArguments f")
    case None
    with Some m [of "fnName f" "JObj []"] show ?thesis
      by (simp add: executeOne_def callRequest_def invokeEvents_def case_prod_beta)
  next
    case (Some v)
    note v = this
    show ?thesis
    proof (cases "\<exists>s. v = JStr s")
      case True
      then obtain s where s: "v = JStr s" by blast
      show ?thesis
      proof (cases "JSON_parse L (if s = [] then ascii ''{}'' else s)")
        case None
        with \<open>callFunction c = Some f\<close> v s show ?thesis
          by (simp add: executeOne_def callRequest_def invokeEvents_def Let_def)
      next
        case (Some a)
        with \<open>callFunction c = Some f\<close> v s m [of "fnName f" a] show ?thesis
          by (simp add: executeOne_def callRequest_def invokeEvents_def Let_def case_prod_beta)
      qed
    next
      case False
      with \<open>callFunction c = Some f\<close> v m [of "fnName f"] show ?thesis
        by (cases v) (simp_all add: executeOne_def callRequest_def invokeEvents_def case_prod_beta)
    qed
  qed
qed

lemma executeToolCalls_trace:
  "snd (executeToolCalls L w ctx cap calls results executed tr)
     = tr @ invokeEvents L ctx (take (nat (cap - int executed)) calls)"
proof (induction calls arbitrary: results executed tr)
  case Nil
  show ?case by simp
next
  case (Cons tc rest)
  show ?case
  proof (cases "int executed \<ge> cap")
    case True
    then show ?thesis by simp
  next
    case False
    obtain r tr' where e: "executeOne L w ctx executed tc tr = (r, tr')"
      by (cases "executeOne L w ctx executed tc tr")
    have t: "tr' = tr @ invokeEvents L ctx [tc]"
      using executeOne_trace [of L w ctx executed tc tr] e by simp
    have n: "nat (cap - int executed) = Suc (nat (cap - int (executed + 1)))" using False by simp
    show ?thesis
      unfolding n using False e t Cons.IH [of "results @ [r]" "executed + 1" tr']
        invokeEvents_Cons [of L ctx tc "take (nat (cap - int (executed + 1))) rest"] by simp
  qed
qed

lemma executeToolCalls_prefix:
  "take (length results) (fst (executeToolCalls L w ctx cap calls results executed tr)) = results"
proof (induction calls arbitrary: results executed tr)
  case Nil
  show ?case by simp
next
  case (Cons tc rest)
  show ?case
  proof (cases "int executed \<ge> cap")
    case True
    then show ?thesis by simp
  next
    case False
    obtain r tr' where e: "executeOne L w ctx executed tc tr = (r, tr')"
      by (cases "executeOne L w ctx executed tc tr")
    let ?out = "fst (executeToolCalls L w ctx cap rest (results @ [r]) (executed + 1) tr')"
    have "take (length (results @ [r])) ?out = results @ [r]" by (rule Cons.IH)
    then have "take (length results) (take (length (results @ [r])) ?out) = take (length results) (results @ [r])"
      by simp
    then have "take (length results) ?out = results" by (simp add: min_def)
    with False e show ?thesis by simp
  qed
qed

lemma executeToolCalls_nth:
  "i < min (length calls) (nat (cap - int executed)) \<Longrightarrow>
   fst (executeToolCalls L w ctx cap calls results executed tr) ! (length results + i)
     = fst (executeOne L w ctx (executed + i) (calls ! i) (tr @ invokeEvents L ctx (take i calls)))"
proof (induction calls arbitrary: results executed tr i)
  case Nil
  then show ?case by simp
next
  case (Cons tc rest)
  from Cons.prems have False: "\<not> int executed \<ge> cap" by auto
  obtain r tr' where e: "executeOne L w ctx executed tc tr = (r, tr')"
    by (cases "executeOne L w ctx executed tc tr")
  have t: "tr' = tr @ invokeEvents L ctx [tc]"
    using executeOne_trace [of L w ctx executed tc tr] e by simp
  let ?out = "fst (executeToolCalls L w ctx cap rest (results @ [r]) (executed + 1) tr')"
  have out: "fst (executeToolCalls L w ctx cap (tc # rest) results executed tr) = ?out"
    using False e by simp
  show ?case
  proof (cases i)
    case 0
    have p: "take (length (results @ [r])) ?out = results @ [r]" by (rule executeToolCalls_prefix)
    have "?out ! length results = take (length (results @ [r])) ?out ! length results"
      by simp
    also have "\<dots> = r" unfolding p by simp
    finally show ?thesis unfolding out using 0 e by simp
  next
    case (Suc j)
    have n: "nat (cap - int executed) = Suc (nat (cap - int (executed + 1)))" using False by simp
    have j: "j < min (length rest) (nat (cap - int (executed + 1)))"
      using Cons.prems Suc n by simp
    from Cons.IH [OF j, of "results @ [r]" tr']
    show ?thesis unfolding out using Suc t invokeEvents_Cons [of L ctx tc "take j rest"] by simp
  qed
qed

lemma invoked_simps [simp]:
  "invoked [] = []"
  "invoked (xs @ ys) = invoked xs @ invoked ys"
  "invoked [EvChat r] = []" "invoked [EvListTools] = []" "invoked [EvInvoke n a h] = [EvInvoke n a h]"
  by (simp_all add: invoked_def)

lemma invoked_invokeEvents [simp]: "invoked (invokeEvents L ctx calls) = invokeEvents L ctx calls"
  by (induction calls) (auto simp: invokeEvents_def invoked_def split: sum.splits)

lemma invocations_invoked: "invocations tr = length (invoked tr)"
  by (simp add: invocations_def invoked_def)

lemma callOllama_invoked:
  "callOllamaWithTools L w now msgs tools temp tr = (r, tr') \<Longrightarrow> invoked tr' = invoked tr"
  using callOllama_trace [of L w now msgs tools temp tr] by simp

lemma decide_invoked:
  "decide L w now ag tools msg tr = (r, tr') \<Longrightarrow> invoked tr' = invoked tr"
  by (auto simp: decide_def Let_def split: prod.splits sum.splits if_splits
      dest!: callOllama_invoked)

lemma finalResponse_invoked:
  "finalResponse L w now vi msg results message tr = (r, tr') \<Longrightarrow> invoked tr' = invoked tr"
  by (auto simp: finalResponse_def split: prod.splits sum.splits option.splits if_splits
      dest!: callOllama_invoked)

lemma getAvailableTools_invoked: "invoked (snd (getAvailableTools w tr)) = invoked tr"
  by (simp add: getAvailableTools_def split: sum.splits)

lemma length_invokeEvents: "length (invokeEvents L ctx calls) \<le> length calls"
proof (induction calls)
  case Nil
  show ?case by simp
next
  case (Cons c cs)
  have "length (invokeEvents L ctx [c]) \<le> 1"
    by (simp add: invokeEvents_def split: sum.splits)
  with Cons invokeEvents_Cons [of L ctx c cs] show ?case by simp
qed

lemma decide_invocations:
  "decide L w now ag tools msg tr = (r, tr') \<Longrightarrow> invocations tr' = invocations tr"
  by (auto simp: decide_def Let_def split: prod.splits sum.splits if_splits
      dest!: callOllama_invocations)

lemma finalResponse_invocations:
  "finalResponse L w now vi msg results message tr = (r, tr') \<Longrightarrow> invocations tr' = invocations tr"
  by (auto simp: finalResponse_def split: prod.splits sum.splits option.splits if_splits
      dest!: callOllama_invocations)

lemma conversationalPath_trace:
  "snd (snd (conversationalPath L w now ag ctx tr msg uid sid)) = tr @ [EvChat (conversationalRequest msg)]"
proof -
  have "snd (callOllamaWithTools L w now
             [\<lparr>msgRole = System, msgContent = friendlyPrompt\<rparr>,
              \<lparr>msgRole = UserRole, msgContent = msg\<rparr>] [] 5 tr) = tr @ [EvChat (conversationalRequest msg)]"
    by (simp add: callOllama_trace messagesWithTools_def conversationalRequest_def)
  then show ?thesis
    by (auto simp: conversationalPath_def Let_def split: prod.splits sum.splits option.splits)
qed


lemma conversationalPath_Inl:
  "conversationalPath L w now ag ctx tr msg uid sid = (Inl e, ag', tr') \<Longrightarrow> ag' = ag"
  by (auto simp: conversationalPath_def Let_def split: prod.splits sum.splits option.splits)

lemma conversationalPath_Inr:
  "conversationalPath L w now ag ctx tr msg uid sid = (Inr resp, ag', tr') \<Longrightarrow>
     success resp \<and> toolsCalled resp = [] \<and> toolResults resp = []
     \<and> (\<exists>u a. conversationHistory ag' = conversationHistory ag @ [u, a])"
  by (auto simp: conversationalPath_def Let_def buildResponse_def addHistory_def
      split: prod.splits sum.splits option.splits)

lemma toolPath_Inl:
  "toolPath L w now ag ctx tr msg uid sid = (Inl e, ag', tr') \<Longrightarrow> ag' = ag"
  by (auto simp: toolPath_def Let_def split: prod.splits sum.splits)

lemma toolPath_Inr:
  assumes "toolPath L w now ag ctx tr msg uid sid = (Inr resp, ag', tr')"
  shows "success resp \<and> toolsCalled resp = map resName (toolResults resp)
     \<and> length (toolResults resp) \<le> nat (maxToolCalls ag)
     \<and> (\<exists>u a. conversationHistory ag' = conversationHistory ag @ [u, a])"
proof -
  obtain allTools tr1 where gt: "getAvailableTools w tr = (allTools, tr1)"
    by (cases "getAvailableTools w tr")
  let ?tools = "filterRelevantTools L allTools msg 15"
  obtain d tr3 where dc: "decide L w now ag ?tools msg tr1 = (d, tr3)"
    by (cases "decide L w now ag ?tools msg tr1")
  from assms gt dc obtain message toolCalls where dr: "d = Inr (message, toolCalls)"
    by (cases d) (auto simp: toolPath_def)
  obtain results tr4 where ex: "executeToolCalls L w ctx (maxToolCalls ag) toolCalls [] 0 tr3 = (results, tr4)"
    by (cases "executeToolCalls L w ctx (maxToolCalls ag) toolCalls [] 0 tr3")
  have len: "length results \<le> nat (maxToolCalls ag)"
    using executeToolCalls_length [of L w ctx "maxToolCalls ag" toolCalls "[]" 0 tr3] ex by simp
  obtain f tr5 where fin: "finalResponse L w now (isNonEnglish msg) msg results message tr4 = (f, tr5)"
    by (cases "finalResponse L w now (isNonEnglish msg) msg results message tr4")
  from assms gt dc dr ex fin obtain answer where fr: "f = Inr answer"
    by (cases f) (auto simp: toolPath_def)
  from assms gt dc dr ex fin fr len show ?thesis
    by (auto simp: toolPath_def Let_def buildResponse_def addHistory_def)
qed

lemma toolPath_invocations:
  assumes "toolPath L w now ag ctx tr msg uid sid = (r, ag', tr')"
  shows "invocations tr' \<le> invocations tr + nat (maxToolCalls ag)"
proof -
  obtain allTools tr1 where gt: "getAvailableTools w tr = (allTools, tr1)"
    by (cases "getAvailableTools w tr")
  have i1: "invocations tr1 = invocations tr"
    using gt by (auto simp: getAvailableTools_def split: sum.splits)
  let ?tools = "filterRelevantTools L allTools msg 15"
  obtain d tr3 where dc: "decide L w now ag ?tools msg tr1 = (d, tr3)"
    by (cases "decide L w now ag ?tools msg tr1")
  have i3: "invocations tr3 = invocations tr1" using decide_invocations [OF dc] .
  show ?thesis
  proof (cases d)
    case (Inl e)
    with assms gt dc i1 i3 show ?thesis by (auto simp: toolPath_def)
  next
    case (Inr mc)
    obtain message toolCalls where mc: "mc = (message, toolCalls)" by (cases mc)
    obtain results tr4 where ex: "executeToolCalls L w ctx (maxToolCalls ag) toolCalls [] 0 tr3 = (results, tr4)"
      by (cases "executeToolCalls L w ctx (maxToolCalls ag) toolCalls [] 0 tr3")
    have i4: "invocations tr4 \<le> invocations tr3 + nat (maxToolCalls ag)"
      using executeToolCalls_invocations [of L w ctx "maxToolCalls ag" toolCalls "[]" 0 tr3] ex by simp
    obtain f tr5 where fin: "finalResponse L w now (isNonEnglish msg) msg results message tr4 = (f, tr5)"
      by (cases "finalResponse L w now (isNonEnglish msg) msg results message tr4")
    have i5: "invocations tr5 = invocations tr4" using finalResponse_invocations [OF fin] .
    have "tr' = tr5" using assms gt dc Inr mc ex fin by (cases f) (auto simp: toolPath_def Let_def)
    with i1 i3 i4 i5 show ?thesis by simp
  qed
qed

lemma conversationalPath_invocations:
  "conversationalPath L w now ag ctx tr msg uid sid = (r, ag', tr') \<Longrightarrow> invocations tr' = invocations tr"
  using conversationalPath_trace [of L w now ag ctx tr msg uid sid] by simp

text \<open>The outcome of \<open>processMessage\<close> in terms of the path taken.\<close>

lemma processMessage_path:
  obtains ctx sm1 r ag' tr' where
    "getSessionContext now now sm sid = (ctx, sm1)"
    "(if isConversationalMessage L msg
      then conversationalPath L w now ag ctx tr msg uid sid
      else toolPath L w now ag ctx tr msg uid sid) = (r, ag', tr')"
    "tryProcessMessage L w now ag sm tr msg uid sid = (r, ag', sm1, tr')"
proof -
  obtain ctx sm1 where c: "getSessionContext now now sm sid = (ctx, sm1)"
    by (cases "getSessionContext now now sm sid")
  obtain r ag' tr' where p: "(if isConversationalMessage L msg
      then conversationalPath L w now ag ctx tr msg uid sid
      else toolPath L w now ag ctx tr msg uid sid) = (r, ag', tr')"
    by (cases "if isConversationalMessage L msg
      then conversationalPath L w now ag ctx tr msg uid sid
      else toolPath L w now ag ctx tr msg uid sid") auto
  have "tryProcessMessage L w now ag sm tr msg uid sid = (r, ag', sm1, tr')"
    using c p by (simp add: tryProcessMessage_def)
  with c p that show ?thesis by blast
qed

lemma tryProcessMessage_Inl:
  assumes "tryProcessMessage L w now ag sm tr msg uid sid = (Inl e, ag', sm', tr')"
  shows "ag' = ag"
proof -
  obtain ctx sm1 r ag1 tr1 where
    p: "(if isConversationalMessage L msg
      then conversationalPath L w now ag ctx tr msg uid sid
      else toolPath L w now ag ctx tr msg uid sid) = (r, ag1, tr1)"
    and t: "tryProcessMessage L w now ag sm tr msg uid sid = (r, ag1, sm1, tr1)"
    by (rule processMessage_path)
  from t assms have "r = Inl e" "ag1 = ag'" by simp_all
  with p show ?thesis
    by (auto split: if_splits dest: conversationalPath_Inl toolPath_Inl)
qed

lemma tryProcessMessage_Inr:
  assumes "tryProcessMessage L w now ag sm tr msg uid sid = (Inr resp, ag', sm', tr')"
  shows "success resp \<and> toolsCalled resp = map resName (toolResults resp)
     \<and> length (toolResults resp) \<le> nat (maxToolCalls ag)
     \<and> (\<exists>u a. conversationHistory ag' = conversationHistory ag @ [u, a])"
proof -
  obtain ctx sm1 r ag1 tr1 where
    p: "(if isConversationalMessage L msg
      then conversationalPath L w now ag ctx tr msg uid sid
      else toolPath L w now ag ctx tr msg uid sid) = (r, ag1, tr1)"
    and t: "tryProcessMessage L w now ag sm tr msg uid sid = (r, ag1, sm1, tr1)"
    by (rule processMessage_path)
  from t assms have e: "r = Inr resp" "ag1 = ag'" by simp_all
  show ?thesis
  proof (cases "isConversationalMessage L msg")
    case True
    with p e have "conversationalPath L w now ag ctx tr msg uid sid = (Inr resp, ag', tr1)" by simp
    from conversationalPath_Inr [OF this] show ?thesis by simp
  next
    case False
    with p e have "toolPath L w now ag ctx tr msg uid sid = (Inr resp, ag', tr1)" by simp
    from toolPath_Inr [OF this] show ?thesis .
  qed
qed

lemma tryProcessMessage_invocations:
  assumes "tryProcessMessage L w now ag sm tr msg uid sid = (r, ag', sm', tr')"
  shows "invocations tr' \<le> invocations tr + nat (maxToolCalls ag)"
proof -
  obtain ctx sm1 r1 ag1 tr1 where
    p: "(if isConversationalMessage L msg
      then conversationalPath L w now ag ctx tr msg uid sid
      else toolPath L w now ag ctx tr msg uid sid) = (r1, ag1, tr1)"
    and t: "tryProcessMessage L w now ag sm tr msg uid sid = (r1, ag1, sm1, tr1)"
    by (rule processMessage_path)
  from t assms have e: "tr1 = tr'" by simp
  show ?thesis
  proof (cases "isConversationalMessage L msg")
    case True
    with p have "conversationalPath L w now ag ctx tr msg uid sid = (r1, ag1, tr1)" by simp
    from conversationalPath_invocations [OF this] e show ?thesis by simp
  next
    case False
    with p have "toolPath L w now ag ctx tr msg uid sid = (r1, ag1, tr1)" by simp
    from toolPath_invocations [OF this] e show ?thesis by simp
  qed
qed

lemma processMessage_Inl:
  "tryProcessMessage L w now ag sm tr msg uid sid = (Inl e, ag', sm', tr') \<Longrightarrow>
   processMessage L w now ag sm tr msg uid sid
     = (buildResponse now False (ascii ''Error: '' @ e) [] [] uid sid None, ag', sm', tr')"
  by (simp add: processMessage_def)

lemma processMessage_Inr:
  "tryProcessMessage L w now ag sm tr msg uid sid = (Inr resp, ag', sm', tr') \<Longrightarrow>
   processMessage L w now ag sm tr msg uid sid = (resp, ag', sm', tr')"
  by (simp add: processMessage_def)


lemma error_prefix: "ascii ''Error: '' @ ascii ''LLM Error: '' @ e = ascii ''Error: LLM Error: '' @ e"
  by (simp add: ascii_def)

lemma processMessage_cases:
  obtains (failed) e ag' sm' tr' where
      "tryProcessMessage L w now ag sm tr msg uid sid = (Inl e, ag', sm', tr')"
      "processMessage L w now ag sm tr msg uid sid
         = (buildResponse now False (ascii ''Error: '' @ e) [] [] uid sid None, ag', sm', tr')"
  | (succeeded) resp ag' sm' tr' where
      "tryProcessMessage L w now ag sm tr msg uid sid = (Inr resp, ag', sm', tr')"
      "processMessage L w now ag sm tr msg uid sid = (resp, ag', sm', tr')"
proof -
  obtain r ag' sm' tr' where t: "tryProcessMessage L w now ag sm tr msg uid sid = (r, ag', sm', tr')"
    by (cases "tryProcessMessage L w now ag sm tr msg uid sid") auto
  show ?thesis
  proof (cases r)
    case (Inl e)
    with t failed processMessage_Inl show ?thesis by blast
  next
    case (Inr resp)
    with t succeeded processMessage_Inr show ?thesis by blast
  qed
qed

lemma toolPath_count:
  assumes "fst (decide L w now ag
                  (filterRelevantTools L (fst (getAvailableTools w tr)) msg 15) msg
                  (snd (getAvailableTools w tr))) = Inr (message, toolCalls)"
    and "toolPath L w now ag ctx tr msg uid sid = (Inr resp, ag', tr')"
  shows "length (toolsCalled resp) = min (length toolCalls) (nat (maxToolCalls ag))"
proof -
  obtain allTools tr1 where gt: "getAvailableTools w tr = (allTools, tr1)"
    by (cases "getAvailableTools w tr")
  let ?tools = "filterRelevantTools L allTools msg 15"
  obtain tr3 where dc: "decide L w now ag ?tools msg tr1 = (Inr (message, toolCalls), tr3)"
    using assms(1) gt by (cases "decide L w now ag ?tools msg tr1") auto
  obtain results tr4 where ex: "executeToolCalls L w ctx (maxToolCalls ag) toolCalls [] 0 tr3 = (results, tr4)"
    by (cases "executeToolCalls L w ctx (maxToolCalls ag) toolCalls [] 0 tr3")
  have len: "length results = min (length toolCalls) (nat (maxToolCalls ag))"
    using executeToolCalls_length [of L w ctx "maxToolCalls ag" toolCalls "[]" 0 tr3] ex by simp
  obtain f tr5 where fin: "finalResponse L w now (isNonEnglish msg) msg results message tr4 = (f, tr5)"
    by (cases "finalResponse L w now (isNonEnglish msg) msg results message tr4")
  from assms(2) gt dc ex fin obtain answer where fr: "f = Inr answer"
    by (cases f) (auto simp: toolPath_def)
  from assms(2) gt dc ex fin fr len show ?thesis
    by (auto simp: toolPath_def Let_def buildResponse_def)
qed

text \<open>The tool path once the decision stage has returned its calls.\<close>

lemma toolPath_decided:
  assumes "fst (decide L w now ag
                  (filterRelevantTools L (fst (getAvailableTools w tr)) msg 15) msg
                  (snd (getAvailableTools w tr))) = Inr (message, toolCalls)"
    and "toolPath L w now ag ctx tr msg uid sid = (r, ag', tr')"
  shows "invoked tr' = invoked tr @ invokeEvents L ctx (take (nat (maxToolCalls ag)) toolCalls)
       \<and> (\<forall>resp. r = Inr resp \<longrightarrow>
            toolResults resp
              = fst (executeToolCalls L w ctx (maxToolCalls ag) toolCalls [] 0
                       (snd (decide L w now ag
                          (filterRelevantTools L (fst (getAvailableTools w tr)) msg 15) msg
                          (snd (getAvailableTools w tr))))))"
proof -
  obtain allTools tr1 where gt: "getAvailableTools w tr = (allTools, tr1)"
    by (cases "getAvailableTools w tr")
  have i1: "invoked tr1 = invoked tr" using getAvailableTools_invoked [of w tr] gt by simp
  let ?tools = "filterRelevantTools L allTools msg 15"
  obtain tr3 where dc: "decide L w now ag ?tools msg tr1 = (Inr (message, toolCalls), tr3)"
    using assms(1) gt by (cases "decide L w now ag ?tools msg tr1") auto
  have i3: "invoked tr3 = invoked tr1" using decide_invoked [OF dc] .
  obtain results tr4 where ex: "executeToolCalls L w ctx (maxToolCalls ag) toolCalls [] 0 tr3 = (results, tr4)"
    by (cases "executeToolCalls L w ctx (maxToolCalls ag) toolCalls [] 0 tr3")
  have t4: "tr4 = tr3 @ invokeEvents L ctx (take (nat (maxToolCalls ag)) toolCalls)"
    using executeToolCalls_trace [of L w ctx "maxToolCalls ag" toolCalls "[]" 0 tr3] ex by simp
  obtain f tr5 where fin: "finalResponse L w now (isNonEnglish msg) msg results message tr4 = (f, tr5)"
    by (cases "finalResponse L w now (isNonEnglish msg) msg results message tr4")
  have i5: "invoked tr5 = invoked tr4" using finalResponse_invoked [OF fin] .
  have tr': "tr' = tr5" using assms(2) gt dc ex fin by (cases f) (auto simp: toolPath_def Let_def)
  have a: "invoked tr' = invoked tr @ invokeEvents L ctx (take (nat (maxToolCalls ag)) toolCalls)"
    unfolding tr' i5 t4 using i3 i1 by simp
  have b: "\<forall>resp. r = Inr resp \<longrightarrow> toolResults resp = results"
    using assms(2) gt dc ex fin by (cases f) (auto simp: toolPath_def Let_def buildResponse_def)
  from a b gt dc ex show ?thesis by simp
qed



text \<open>
  C1, amended. The loop over \<open>n\<close> proposed calls executes the first \<open>min n cap\<close> of
  them in order and nothing else: it yields one result for each of them, a call whose
  name or arguments cannot be read yields an error result without a gateway request, every
  other one yields the gateway's answer to a request with the call's name and arguments
  (the failure object when the gateway fails), and the trace grows by exactly these
  requests; the calls beyond the cap have no effect at all. For every message
  \<open>toolsCalled\<close> are the names of \<open>toolResults\<close>, at most \<open>maxToolCalls\<close> of them,
  and one pass makes at most \<open>maxToolCalls\<close> gateway requests. When the decision stage
  proposes the calls \<open>toolCalls\<close>, the requests of the pass are those of the first
  \<open>maxToolCalls\<close> of them; when the pass succeeds, \<open>toolResults\<close> are the results of the
  loop and \<open>toolsCalled\<close> has length \<open>min n maxToolCalls\<close>; when it fails (the summary
  call throws), \<open>toolsCalled\<close> and \<open>toolResults\<close> are empty.
\<close>

theorem tool_execution_cap:
  "length (fst (executeToolCalls L w ctx cap calls [] 0 tr0)) = min (length calls) (nat cap)
   \<and> executeToolCalls L w ctx cap calls [] 0 tr0
       = executeToolCalls L w ctx cap (take (nat cap) calls) [] 0 tr0
   \<and> snd (executeToolCalls L w ctx cap calls [] 0 tr0)
       = tr0 @ invokeEvents L ctx (take (nat cap) calls)
   \<and> (\<forall>i < min (length calls) (nat cap).
        fst (executeToolCalls L w ctx cap calls [] 0 tr0) ! i =
          (case callRequest L (calls ! i) of
             Inl msg \<Rightarrow>
               \<lparr>resId = (case orString (callId (calls ! i)) None of
                           Some rid \<Rightarrow> rid | None \<Rightarrow> ascii ''call_'' @ intToString (int i)),
                resName = (case callFunction (calls ! i) of
                             None \<Rightarrow> ascii ''unknown''
                           | Some f \<Rightarrow> if fnName f = [] then ascii ''unknown'' else fnName f),
                resArgs = None, resResult = None, resError = Some msg\<rparr>
           | Inr (toolName, toolArgs) \<Rightarrow>
               \<lparr>resId = (case orString (callId (calls ! i)) None of
                           Some rid \<Rightarrow> rid | None \<Rightarrow> ascii ''call_'' @ intToString (int i)),
                resName = toolName, resArgs = Some toolArgs,
                resResult = Some
                  (case mcpInvoke w (tr0 @ invokeEvents L ctx (take i calls)) toolName toolArgs
                          (authHeaders ctx) of
                     Inr data \<Rightarrow> data
                   | Inl msg \<Rightarrow> JObj [(ascii ''success'', JBool False),
                                        (ascii ''error'', JStr msg)]),
                resError = None\<rparr>))
   \<and> invocations (snd (executeToolCalls L w ctx cap calls [] 0 tr0))
       \<le> invocations tr0 + min (length calls) (nat cap)
   \<and> toolsCalled (fst (processMessage L w now ag sm tr msg uid sid))
       = map resName (toolResults (fst (processMessage L w now ag sm tr msg uid sid)))
   \<and> length (toolsCalled (fst (processMessage L w now ag sm tr msg uid sid)))
       \<le> nat (maxToolCalls ag)
   \<and> invocations (snd (snd (snd (processMessage L w now ag sm tr msg uid sid))))
       \<le> invocations tr + nat (maxToolCalls ag)
   \<and> (\<not> isConversationalMessage L msg
        \<and> fst (decide L w now ag
                  (filterRelevantTools L (fst (getAvailableTools w tr)) msg 15) msg
                  (snd (getAvailableTools w tr))) = Inr (message, toolCalls)
      \<longrightarrow> invoked (snd (snd (snd (processMessage L w now ag sm tr msg uid sid))))
            = invoked tr @ invokeEvents L (fst (getSessionContext now now sm sid))
                             (take (nat (maxToolCalls ag)) toolCalls)
          \<and> (if success (fst (processMessage L w now ag sm tr msg uid sid))
             then toolResults (fst (processMessage L w now ag sm tr msg uid sid))
                    = fst (executeToolCalls L w (fst (getSessionContext now now sm sid))
                             (maxToolCalls ag) toolCalls [] 0
                             (snd (decide L w now ag
                                (filterRelevantTools L (fst (getAvailableTools w tr)) msg 15) msg
                                (snd (getAvailableTools w tr)))))
                  \<and> length (toolsCalled (fst (processMessage L w now ag sm tr msg uid sid)))
                      = min (length toolCalls) (nat (maxToolCalls ag))
             else toolsCalled (fst (processMessage L w now ag sm tr msg uid sid)) = []
                  \<and> toolResults (fst (processMessage L w now ag sm tr msg uid sid)) = []))"
proof -
  have c1: "length (fst (executeToolCalls L w ctx cap calls [] 0 tr0)) = min (length calls) (nat cap)"
    using executeToolCalls_length [of L w ctx cap calls "[]" 0 tr0] by simp
  have c2: "executeToolCalls L w ctx cap calls [] 0 tr0
       = executeToolCalls L w ctx cap (take (nat cap) calls) [] 0 tr0"
    using executeToolCalls_take [of L w ctx cap calls "[]" 0 tr0] by simp
  have c3: "snd (executeToolCalls L w ctx cap calls [] 0 tr0)
       = tr0 @ invokeEvents L ctx (take (nat cap) calls)"
    using executeToolCalls_trace [of L w ctx cap calls "[]" 0 tr0] by simp
  have c4: "\<forall>i < min (length calls) (nat cap).
        fst (executeToolCalls L w ctx cap calls [] 0 tr0) ! i =
          (case callRequest L (calls ! i) of
             Inl msg \<Rightarrow>
               \<lparr>resId = (case orString (callId (calls ! i)) None of
                           Some rid \<Rightarrow> rid | None \<Rightarrow> ascii ''call_'' @ intToString (int i)),
                resName = (case callFunction (calls ! i) of
                             None \<Rightarrow> ascii ''unknown''
                           | Some f \<Rightarrow> if fnName f = [] then ascii ''unknown'' else fnName f),
                resArgs = None, resResult = None, resError = Some msg\<rparr>
           | Inr (toolName, toolArgs) \<Rightarrow>
               \<lparr>resId = (case orString (callId (calls ! i)) None of
                           Some rid \<Rightarrow> rid | None \<Rightarrow> ascii ''call_'' @ intToString (int i)),
                resName = toolName, resArgs = Some toolArgs,
                resResult = Some
                  (case mcpInvoke w (tr0 @ invokeEvents L ctx (take i calls)) toolName toolArgs
                          (authHeaders ctx) of
                     Inr data \<Rightarrow> data
                   | Inl msg \<Rightarrow> JObj [(ascii ''success'', JBool False),
                                        (ascii ''error'', JStr msg)]),
                resError = None\<rparr>)"
  proof (intro allI impI)
    fix i assume i: "i < min (length calls) (nat cap)"
    then have "i < min (length calls) (nat (cap - int 0))" by simp
    from executeToolCalls_nth [OF this, of L w ctx "[]" tr0]
    have "fst (executeToolCalls L w ctx cap calls [] 0 tr0) ! i
            = fst (executeOne L w ctx i (calls ! i) (tr0 @ invokeEvents L ctx (take i calls)))"
      by simp
    then show "fst (executeToolCalls L w ctx cap calls [] 0 tr0) ! i =
          (case callRequest L (calls ! i) of
             Inl msg \<Rightarrow>
               \<lparr>resId = (case orString (callId (calls ! i)) None of
                           Some rid \<Rightarrow> rid | None \<Rightarrow> ascii ''call_'' @ intToString (int i)),
                resName = (case callFunction (calls ! i) of
                             None \<Rightarrow> ascii ''unknown''
                           | Some f \<Rightarrow> if fnName f = [] then ascii ''unknown'' else fnName f),
                resArgs = None, resResult = None, resError = Some msg\<rparr>
           | Inr (toolName, toolArgs) \<Rightarrow>
               \<lparr>resId = (case orString (callId (calls ! i)) None of
                           Some rid \<Rightarrow> rid | None \<Rightarrow> ascii ''call_'' @ intToString (int i)),
                resName = toolName, resArgs = Some toolArgs,
                resResult = Some
                  (case mcpInvoke w (tr0 @ invokeEvents L ctx (take i calls)) toolName toolArgs
                          (authHeaders ctx) of
                     Inr data \<Rightarrow> data
                   | Inl msg \<Rightarrow> JObj [(ascii ''success'', JBool False),
                                        (ascii ''error'', JStr msg)]),
                resError = None\<rparr>)"
      unfolding executeOne_result .
  qed
  have c5: "invocations (snd (executeToolCalls L w ctx cap calls [] 0 tr0))
       \<le> invocations tr0 + min (length calls) (nat cap)"
    using executeToolCalls_invocations [of L w ctx cap calls "[]" 0 tr0] by simp
  let ?p = "processMessage L w now ag sm tr msg uid sid"
  let ?ctx = "fst (getSessionContext now now sm sid)"
  let ?d = "decide L w now ag (filterRelevantTools L (fst (getAvailableTools w tr)) msg 15) msg
              (snd (getAvailableTools w tr))"
  have c678: "toolsCalled (fst ?p) = map resName (toolResults (fst ?p))
      \<and> length (toolsCalled (fst ?p)) \<le> nat (maxToolCalls ag)
      \<and> invocations (snd (snd (snd ?p))) \<le> invocations tr + nat (maxToolCalls ag)"
  proof (cases rule: processMessage_cases [of L w now ag sm tr msg uid sid])
    case (failed e ag' sm' tr')
    from tryProcessMessage_invocations [OF failed(1)] failed(2)
    show ?thesis by (simp add: buildResponse_def)
  next
    case (succeeded resp ag' sm' tr')
    from tryProcessMessage_invocations [OF succeeded(1)] tryProcessMessage_Inr [OF succeeded(1)]
      succeeded(2)
    show ?thesis by simp
  qed
  have c9: "\<not> isConversationalMessage L msg \<and> fst ?d = Inr (message, toolCalls)
      \<longrightarrow> invoked (snd (snd (snd ?p)))
            = invoked tr @ invokeEvents L ?ctx (take (nat (maxToolCalls ag)) toolCalls)
          \<and> (if success (fst ?p)
             then toolResults (fst ?p)
                    = fst (executeToolCalls L w ?ctx (maxToolCalls ag) toolCalls [] 0 (snd ?d))
                  \<and> length (toolsCalled (fst ?p)) = min (length toolCalls) (nat (maxToolCalls ag))
             else toolsCalled (fst ?p) = [] \<and> toolResults (fst ?p) = [])"
  proof
    assume h: "\<not> isConversationalMessage L msg \<and> fst ?d = Inr (message, toolCalls)"
    obtain ctx' sm1 r ag1 tr1 where
      g: "getSessionContext now now sm sid = (ctx', sm1)"
      and p: "(if isConversationalMessage L msg
          then conversationalPath L w now ag ctx' tr msg uid sid
          else toolPath L w now ag ctx' tr msg uid sid) = (r, ag1, tr1)"
      and t: "tryProcessMessage L w now ag sm tr msg uid sid = (r, ag1, sm1, tr1)"
      by (rule processMessage_path)
    have cx: "?ctx = ctx'" using g by simp
    from p h have tp: "toolPath L w now ag ctx' tr msg uid sid = (r, ag1, tr1)" by simp
    have d: "fst ?d = Inr (message, toolCalls)" using h ..
    note dec = toolPath_decided [OF d tp]
    have tr1: "snd (snd (snd ?p)) = tr1"
      using t by (cases r) (simp_all add: processMessage_def)
    have a: "invoked (snd (snd (snd ?p)))
            = invoked tr @ invokeEvents L ?ctx (take (nat (maxToolCalls ag)) toolCalls)"
      unfolding tr1 cx using dec by blast
    have b: "if success (fst ?p)
             then toolResults (fst ?p)
                    = fst (executeToolCalls L w ?ctx (maxToolCalls ag) toolCalls [] 0 (snd ?d))
                  \<and> length (toolsCalled (fst ?p)) = min (length toolCalls) (nat (maxToolCalls ag))
             else toolsCalled (fst ?p) = [] \<and> toolResults (fst ?p) = []"
    proof (cases r)
      case (Inl e)
      with t have "fst ?p = buildResponse now False (ascii ''Error: '' @ e) [] [] uid sid None"
        by (simp add: processMessage_def)
      then show ?thesis by (simp add: buildResponse_def)
    next
      case (Inr resp)
      with t have fp: "fst ?p = resp" by (simp add: processMessage_def)
      from tp Inr have tp': "toolPath L w now ag ctx' tr msg uid sid = (Inr resp, ag1, tr1)" by simp
      have s: "success resp" using toolPath_Inr [OF tp'] by blast
      have r1: "toolResults resp
                  = fst (executeToolCalls L w ctx' (maxToolCalls ag) toolCalls [] 0 (snd ?d))"
        using dec Inr by blast
      have r2: "length (toolsCalled resp) = min (length toolCalls) (nat (maxToolCalls ag))"
        using toolPath_count [OF d tp'] .
      show ?thesis unfolding fp cx using s r1 r2 by simp
    qed
    from a b show "invoked (snd (snd (snd ?p)))
            = invoked tr @ invokeEvents L ?ctx (take (nat (maxToolCalls ag)) toolCalls)
          \<and> (if success (fst ?p)
             then toolResults (fst ?p)
                    = fst (executeToolCalls L w ?ctx (maxToolCalls ag) toolCalls [] 0 (snd ?d))
                  \<and> length (toolsCalled (fst ?p)) = min (length toolCalls) (nat (maxToolCalls ag))
             else toolsCalled (fst ?p) = [] \<and> toolResults (fst ?p) = [])" ..
  qed
  show ?thesis
    by (rule conjI [OF c1 conjI [OF c2 conjI [OF c3 conjI [OF c4 conjI [OF c5
          conjI [OF c678 [THEN conjunct1] conjI [OF c678 [THEN conjunct2, THEN conjunct1]
          conjI [OF c678 [THEN conjunct2, THEN conjunct2] c9]]]]]]]])
qed

text \<open>
  C3, amended. Every error thrown inside \<open>processMessage\<close> is caught and turned into the
  failure response: \<open>success\<close> is false, \<open>toolsCalled\<close> and \<open>toolResults\<close> are empty,
  and \<open>response\<close> is the text \<open>Error: \<close> followed by the message of the error. A
  failing pass leaves the conversation history as it was; a successful one appends exactly
  two turns. When the model backend fails every request with \<open>err\<close>, the pass fails with
  the response \<open>Error: LLM Error: err\<close>.
\<close>

theorem failure_response:
  "(\<forall>e. fst (tryProcessMessage L w now ag sm tr msg uid sid) = Inl e \<longrightarrow>
        fst (processMessage L w now ag sm tr msg uid sid)
          = buildResponse now False (ascii ''Error: '' @ e) [] [] uid sid None)
   \<and> (\<not> success (fst (processMessage L w now ag sm tr msg uid sid)) \<longrightarrow>
        (\<exists>e. response (fst (processMessage L w now ag sm tr msg uid sid)) = ascii ''Error: '' @ e)
        \<and> toolsCalled (fst (processMessage L w now ag sm tr msg uid sid)) = []
        \<and> toolResults (fst (processMessage L w now ag sm tr msg uid sid)) = []
        \<and> conversationHistory (fst (snd (processMessage L w now ag sm tr msg uid sid)))
            = conversationHistory ag)
   \<and> (success (fst (processMessage L w now ag sm tr msg uid sid)) \<longrightarrow>
        (\<exists>u a. conversationHistory (fst (snd (processMessage L w now ag sm tr msg uid sid)))
            = conversationHistory ag @ [u, a]))
   \<and> ((\<forall>t r. ollamaChat w t r = Inl err) \<longrightarrow>
        \<not> success (fst (processMessage L w now ag sm tr msg uid sid))
        \<and> response (fst (processMessage L w now ag sm tr msg uid sid))
            = ascii ''Error: LLM Error: '' @ err)"
proof -
  let ?p = "processMessage L w now ag sm tr msg uid sid"
  have a: "\<forall>e. fst (tryProcessMessage L w now ag sm tr msg uid sid) = Inl e \<longrightarrow>
        fst ?p = buildResponse now False (ascii ''Error: '' @ e) [] [] uid sid None"
    by (cases rule: processMessage_cases [of L w now ag sm tr msg uid sid]) auto
  have b: "\<not> success (fst ?p) \<longrightarrow>
        (\<exists>e. response (fst ?p) = ascii ''Error: '' @ e)
        \<and> toolsCalled (fst ?p) = [] \<and> toolResults (fst ?p) = []
        \<and> conversationHistory (fst (snd ?p)) = conversationHistory ag"
  proof (cases rule: processMessage_cases [of L w now ag sm tr msg uid sid])
    case (failed e ag' sm' tr')
    from tryProcessMessage_Inl [OF failed(1)] failed(2) show ?thesis
      by (simp add: buildResponse_def)
  next
    case (succeeded resp ag' sm' tr')
    from tryProcessMessage_Inr [OF succeeded(1)] succeeded(2) show ?thesis by simp
  qed
  have c: "success (fst ?p) \<longrightarrow>
        (\<exists>u a. conversationHistory (fst (snd ?p)) = conversationHistory ag @ [u, a])"
  proof (cases rule: processMessage_cases [of L w now ag sm tr msg uid sid])
    case (failed e ag' sm' tr')
    then show ?thesis by (simp add: buildResponse_def)
  next
    case (succeeded resp ag' sm' tr')
    from tryProcessMessage_Inr [OF succeeded(1)] succeeded(2) show ?thesis by simp
  qed
  have d: "(\<forall>t r. ollamaChat w t r = Inl err) \<longrightarrow>
        \<not> success (fst ?p) \<and> response (fst ?p) = ascii ''Error: LLM Error: '' @ err"
  proof
    assume down: "\<forall>t r. ollamaChat w t r = Inl err"
    have call: "fst (callOllamaWithTools L w now msgs tools temp t) = Inl (ascii ''LLM Error: '' @ err)"
      for msgs tools temp t
      using down by (simp add: callOllamaWithTools_def Let_def)
    have cp: "fst (conversationalPath L w now ag ctx tr msg uid sid) = Inl (ascii ''LLM Error: '' @ err)"
      for ctx
      using call [of "[\<lparr>msgRole = System, msgContent = friendlyPrompt\<rparr>,
              \<lparr>msgRole = UserRole, msgContent = msg\<rparr>]" "[]" 5 tr]
      by (auto simp: conversationalPath_def split: prod.splits sum.splits)
    have dd: "fst (decide L w now ag tools msg t) = Inl (ascii ''LLM Error: '' @ err)" for tools t
      using call [of "[\<lparr>msgRole = System, msgContent = systemPrompt ag\<rparr>]
            @ map (\<lambda>h. \<lparr>msgRole = hRole h, msgContent = hContent h\<rparr>)
                (lastN 6 (conversationHistory ag))
            @ [\<lparr>msgRole = UserRole, msgContent = msg\<rparr>]" tools 0 t]
      by (auto simp: decide_def Let_def split: prod.splits sum.splits)
    have tp: "fst (toolPath L w now ag ctx tr msg uid sid) = Inl (ascii ''LLM Error: '' @ err)"
      for ctx
    proof -
      obtain allTools tr1 where gt: "getAvailableTools w tr = (allTools, tr1)"
        by (cases "getAvailableTools w tr")
      obtain dr tr3 where dc: "decide L w now ag (filterRelevantTools L allTools msg 15) msg tr1 = (dr, tr3)"
        by (cases "decide L w now ag (filterRelevantTools L allTools msg 15) msg tr1")
      have "dr = Inl (ascii ''LLM Error: '' @ err)"
        using dd [of "filterRelevantTools L allTools msg 15" tr1] dc by simp
      with gt dc show ?thesis by (simp add: toolPath_def)
    qed
    obtain ctx sm1 r ag1 tr1 where
      p: "(if isConversationalMessage L msg
          then conversationalPath L w now ag ctx tr msg uid sid
          else toolPath L w now ag ctx tr msg uid sid) = (r, ag1, tr1)"
      and t: "tryProcessMessage L w now ag sm tr msg uid sid = (r, ag1, sm1, tr1)"
      by (rule processMessage_path)
    have "r = Inl (ascii ''LLM Error: '' @ err)"
      using p cp [of ctx] tp [of ctx] by (cases "isConversationalMessage L msg") simp_all
    with t have "fst (tryProcessMessage L w now ag sm tr msg uid sid) = Inl (ascii ''LLM Error: '' @ err)"
      by simp
    with a show "\<not> success (fst ?p) \<and> response (fst ?p) = ascii ''Error: LLM Error: '' @ err"
      by (simp add: buildResponse_def error_prefix)
  qed
  from a b c d show ?thesis by blast
qed

text \<open>
  C9. For every conversational message, one pass makes exactly one request, a model call
  with the two-message friendly prompt and no tool catalog: the catalog is not fetched and
  no tool is invoked. \<open>toolsCalled\<close> and \<open>toolResults\<close> are empty, and the response is
  the model's text (the fixed greeting when that text is empty); when the model call
  fails, the pass fails.
\<close>

theorem conversational_no_tools:
  assumes "isConversationalMessage L msg"
  shows "snd (snd (snd (processMessage L w now ag sm tr msg uid sid)))
           = tr @ [EvChat (conversationalRequest msg)]
       \<and> toolsCalled (fst (processMessage L w now ag sm tr msg uid sid)) = []
       \<and> toolResults (fst (processMessage L w now ag sm tr msg uid sid)) = []
       \<and> (case ollamaChat w tr (conversationalRequest msg) of
            Inr (Some m) \<Rightarrow>
              success (fst (processMessage L w now ag sm tr msg uid sid))
              \<and> response (fst (processMessage L w now ag sm tr msg uid sid))
                  = (if rawContent m = [] then greetingText else rawContent m)
          | Inr None \<Rightarrow> \<not> success (fst (processMessage L w now ag sm tr msg uid sid))
          | Inl err \<Rightarrow>
              \<not> success (fst (processMessage L w now ag sm tr msg uid sid))
              \<and> response (fst (processMessage L w now ag sm tr msg uid sid))
                  = ascii ''Error: LLM Error: '' @ err)"
proof -
  obtain ctx sm1 where c: "getSessionContext now now sm sid = (ctx, sm1)"
    by (cases "getSessionContext now now sm sid")
  have mw: "messagesWithTools [\<lparr>msgRole = System, msgContent = friendlyPrompt\<rparr>,
              \<lparr>msgRole = UserRole, msgContent = msg\<rparr>] [] = reqMessages (conversationalRequest msg)"
    by (simp add: messagesWithTools_def conversationalRequest_def)
  have rq: "\<lparr>reqMessages = reqMessages (conversationalRequest msg), reqTemperature = 5\<rparr>
      = conversationalRequest msg"
    by (simp add: conversationalRequest_def)
  have call: "callOllamaWithTools L w now [\<lparr>msgRole = System, msgContent = friendlyPrompt\<rparr>,
              \<lparr>msgRole = UserRole, msgContent = msg\<rparr>] [] 5 tr
      = (case ollamaChat w tr (conversationalRequest msg) of
           Inl err \<Rightarrow> Inl (ascii ''LLM Error: '' @ err)
         | Inr message \<Rightarrow> Inr (message, case message of None \<Rightarrow> []
              | Some m \<Rightarrow> filter (\<lambda>tc. case callFunction tc of None \<Rightarrow> False
                                              | Some f \<Rightarrow> fnName f \<noteq> []) (rawToolCalls m)),
         tr @ [EvChat (conversationalRequest msg)])"
    unfolding callOllamaWithTools_def Let_def mw rq
    by (simp split: sum.splits option.splits)
  have t: "tryProcessMessage L w now ag sm tr msg uid sid
      = (fst (conversationalPath L w now ag ctx tr msg uid sid),
         fst (snd (conversationalPath L w now ag ctx tr msg uid sid)), sm1,
         snd (snd (conversationalPath L w now ag ctx tr msg uid sid)))"
    using assms c by (simp add: tryProcessMessage_def split: prod.splits)
  show ?thesis
    unfolding processMessage_def t conversationalPath_def call
    by (simp add: buildResponse_def Let_def error_prefix split: sum.splits option.splits)
qed

subsection \<open>Concrete passes\<close>

lemma eight_calls_example:
  "\<not> isConversationalMessage jsRuntime (ascii ''How many rooms?'')"
  "fst (decide jsRuntime eightCallsWorld 1000 (newAgent (ascii ''P'') None)
          (filterRelevantTools jsRuntime (fst (getAvailableTools eightCallsWorld []))
             (ascii ''How many rooms?'') 15)
          (ascii ''How many rooms?'') (snd (getAvailableTools eightCallsWorld [])))
     = Inr (Some \<lparr>rawContent = [], rawToolCalls = eightCalls\<rparr>, eightCalls)"
  "success (fst (processMessage jsRuntime eightCallsWorld 1000 (newAgent (ascii ''P'') None)
            noSessions [] (ascii ''How many rooms?'') None None))"
  by code_simp+

lemma eight_calls_sizes:
  "length eightCalls = 8" "nat (maxToolCalls (newAgent (ascii ''P'') None)) = 5"
  by (simp_all add: eightCalls_def newAgent_def)

lemma eight_calls_events:
  "invoked [] @ invokeEvents jsRuntime (fst (getSessionContext 1000 1000 noSessions None))
       (take (nat (maxToolCalls (newAgent (ascii ''P'') None))) eightCalls)
     = [roomEvent 1, roomEvent 3, roomEvent 4, roomEvent 5]"
  by code_simp

lemma eight_calls_second:
  "(case callRequest jsRuntime (eightCalls ! 1) of
      Inl msg \<Rightarrow>
        \<lparr>resId = (case orString (callId (eightCalls ! 1)) None of
                    Some rid \<Rightarrow> rid | None \<Rightarrow> ascii ''call_'' @ intToString (int 1)),
         resName = (case callFunction (eightCalls ! 1) of
                      None \<Rightarrow> ascii ''unknown''
                    | Some f \<Rightarrow> if fnName f = [] then ascii ''unknown'' else fnName f),
         resArgs = None, resResult = None, resError = Some msg\<rparr>
    | Inr (toolName, toolArgs) \<Rightarrow>
        \<lparr>resId = (case orString (callId (eightCalls ! 1)) None of
                    Some rid \<Rightarrow> rid | None \<Rightarrow> ascii ''call_'' @ intToString (int 1)),
         resName = toolName, resArgs = Some toolArgs,
         resResult = Some
           (case mcpInvoke eightCallsWorld
                   (snd (decide jsRuntime eightCallsWorld 1000 (newAgent (ascii ''P'') None)
                      (filterRelevantTools jsRuntime (fst (getAvailableTools eightCallsWorld []))
                         (ascii ''How many rooms?'') 15)
                      (ascii ''How many rooms?'') (snd (getAvailableTools eightCallsWorld [])))
                    @ invokeEvents jsRuntime (fst (getSessionContext 1000 1000 noSessions None))
                        (take 1 eightCalls))
                   toolName toolArgs
                   (authHeaders (fst (getSessionContext 1000 1000 noSessions None))) of
              Inr data \<Rightarrow> data
            | Inl msg \<Rightarrow> JObj [(ascii ''success'', JBool False),
                                 (ascii ''error'', JStr msg)]),
         resError = None\<rparr>)
   = \<lparr>resId = ascii ''call_1'', resName = ascii ''get_room'', resArgs = None, resResult = None,
      resError = Some (ascii ''Unexpected token in JSON'')\<rparr>"
  by code_simp

lemma eight_calls_third:
  "(case callRequest jsRuntime (eightCalls ! 2) of
      Inl msg \<Rightarrow>
        \<lparr>resId = (case orString (callId (eightCalls ! 2)) None of
                    Some rid \<Rightarrow> rid | None \<Rightarrow> ascii ''call_'' @ intToString (int 2)),
         resName = (case callFunction (eightCalls ! 2) of
                      None \<Rightarrow> ascii ''unknown''
                    | Some f \<Rightarrow> if fnName f = [] then ascii ''unknown'' else fnName f),
         resArgs = None, resResult = None, resError = Some msg\<rparr>
    | Inr (toolName, toolArgs) \<Rightarrow>
        \<lparr>resId = (case orString (callId (eightCalls ! 2)) None of
                    Some rid \<Rightarrow> rid | None \<Rightarrow> ascii ''call_'' @ intToString (int 2)),
         resName = toolName, resArgs = Some toolArgs,
         resResult = Some
           (case mcpInvoke eightCallsWorld
                   (snd (decide jsRuntime eightCallsWorld 1000 (newAgent (ascii ''P'') None)
                      (filterRelevantTools jsRuntime (fst (getAvailableTools eightCallsWorld []))
                         (ascii ''How many rooms?'') 15)
                      (ascii ''How many rooms?'') (snd (getAvailableTools eightCallsWorld [])))
                    @ invokeEvents jsRuntime (fst (getSessionContext 1000 1000 noSessions None))
                        (take 2 eightCalls))
                   toolName toolArgs
                   (authHeaders (fst (getSessionContext 1000 1000 noSessions None))) of
              Inr data \<Rightarrow> data
            | Inl msg \<Rightarrow> JObj [(ascii ''success'', JBool False),
                                 (ascii ''error'', JStr msg)]),
         resError = None\<rparr>)
   = \<lparr>resId = ascii ''call_2'', resName = ascii ''get_room'',
      resArgs = Some (JObj [(ascii ''id'', JNum 3)]),
      resResult = Some (JObj [(ascii ''success'', JBool False),
                              (ascii ''error'', JStr (ascii ''HTTP 500''))]),
      resError = None\<rparr>"
  by code_simp

text \<open>
  The model proposes eight calls, the cap is the default \<open>5\<close>: \<open>toolsCalled\<close> has
  length five. The second call (arguments that are not JSON) fails before the gateway and
  the third fails at the tool backend: both are among the five results, and the four
  gateway requests of the pass are those of the calls 1, 3, 4 and 5.
\<close>

theorem tool_execution_cap_witness:
  "length eightCalls = 8 \<and> nat (maxToolCalls (newAgent (ascii ''P'') None)) = 5
   \<and> length (toolsCalled (fst (processMessage jsRuntime eightCallsWorld 1000
        (newAgent (ascii ''P'') None) noSessions [] (ascii ''How many rooms?'') None None))) = 5
   \<and> invoked (snd (snd (snd (processMessage jsRuntime eightCallsWorld 1000
        (newAgent (ascii ''P'') None) noSessions [] (ascii ''How many rooms?'') None None))))
       = [roomEvent 1, roomEvent 3, roomEvent 4, roomEvent 5]
   \<and> toolResults (fst (processMessage jsRuntime eightCallsWorld 1000
        (newAgent (ascii ''P'') None) noSessions [] (ascii ''How many rooms?'') None None)) ! 1
       = \<lparr>resId = ascii ''call_1'', resName = ascii ''get_room'', resArgs = None,
          resResult = None, resError = Some (ascii ''Unexpected token in JSON'')\<rparr>
   \<and> toolResults (fst (processMessage jsRuntime eightCallsWorld 1000
        (newAgent (ascii ''P'') None) noSessions [] (ascii ''How many rooms?'') None None)) ! 2
       = \<lparr>resId = ascii ''call_2'', resName = ascii ''get_room'',
          resArgs = Some (JObj [(ascii ''id'', JNum 3)]),
          resResult = Some (JObj [(ascii ''success'', JBool False),
                                  (ascii ''error'', JStr (ascii ''HTTP 500''))]),
          resError = None\<rparr>"
proof -
  let ?ag = "newAgent (ascii ''P'') None"
  let ?msg = "ascii ''How many rooms?''"
  let ?ctx = "fst (getSessionContext 1000 1000 noSessions None)"
  let ?tr3 = "snd (decide jsRuntime eightCallsWorld 1000 ?ag
                (filterRelevantTools jsRuntime (fst (getAvailableTools eightCallsWorld [])) ?msg 15)
                ?msg (snd (getAvailableTools eightCallsWorld [])))"
  let ?p = "processMessage jsRuntime eightCallsWorld 1000 ?ag noSessions [] ?msg None None"
  note T = tool_execution_cap [where L = jsRuntime and w = eightCallsWorld and ctx = ?ctx
      and cap = "maxToolCalls ?ag" and calls = eightCalls and ?tr0.0 = ?tr3 and now = 1000
      and ag = ?ag and sm = noSessions and tr = "[]" and msg = ?msg and uid = None and sid = None
      and message = "Some \<lparr>rawContent = [], rawToolCalls = eightCalls\<rparr>"
      and toolCalls = eightCalls]
  note pass = T [THEN conjunct2, THEN conjunct2, THEN conjunct2, THEN conjunct2, THEN conjunct2,
      THEN conjunct2, THEN conjunct2, THEN conjunct2, THEN mp,
      OF conjI [OF eight_calls_example(1) eight_calls_example(2)]]
  note ok = pass [THEN conjunct2, unfolded if_P [OF eight_calls_example(3)]]
  have len: "length (toolsCalled (fst ?p)) = 5"
    using ok [THEN conjunct2] unfolding eight_calls_sizes by simp
  have ev: "invoked (snd (snd (snd ?p))) = [roomEvent 1, roomEvent 3, roomEvent 4, roomEvent 5]"
    by (rule trans [OF pass [THEN conjunct1] eight_calls_events])
  have i1: "1 < min (length eightCalls) (nat (maxToolCalls ?ag))"
    unfolding eight_calls_sizes by simp
  have i2: "2 < min (length eightCalls) (nat (maxToolCalls ?ag))"
    unfolding eight_calls_sizes by simp
  note each = T [THEN conjunct2, THEN conjunct2, THEN conjunct2, THEN conjunct1, rule_format]
  have r1: "toolResults (fst ?p) ! 1
       = \<lparr>resId = ascii ''call_1'', resName = ascii ''get_room'', resArgs = None,
          resResult = None, resError = Some (ascii ''Unexpected token in JSON'')\<rparr>"
    unfolding ok [THEN conjunct1] by (rule trans [OF each [OF i1] eight_calls_second])
  have r2: "toolResults (fst ?p) ! 2
       = \<lparr>resId = ascii ''call_2'', resName = ascii ''get_room'',
          resArgs = Some (JObj [(ascii ''id'', JNum 3)]),
          resResult = Some (JObj [(ascii ''success'', JBool False),
                                  (ascii ''error'', JStr (ascii ''HTTP 500''))]),
          resError = None\<rparr>"
    unfolding ok [THEN conjunct1] by (rule trans [OF each [OF i2] eight_calls_third])
  show ?thesis
    by (rule conjI [OF eight_calls_sizes(1) conjI [OF eight_calls_sizes(2)
          conjI [OF len conjI [OF ev conjI [OF r1 r2]]]]])
qed

text \<open>
  C1, as stated, fails: the model proposes eight calls, the cap is \<open>5\<close> and the first
  five calls are executed, but the summary call after them fails, and the response is the
  failure response, whose \<open>toolsCalled\<close> is empty.
\<close>

theorem tool_execution_cap_counterexample:
  "length eightGoodCalls = 8 \<and> nat (maxToolCalls (newAgent (ascii ''P'') None)) = 5
   \<and> \<not> isConversationalMessage jsRuntime (ascii ''How many rooms?'')
   \<and> fst (decide jsRuntime summaryDownWorld 1000 (newAgent (ascii ''P'') None)
          (filterRelevantTools jsRuntime (fst (getAvailableTools summaryDownWorld []))
             (ascii ''How many rooms?'') 15)
          (ascii ''How many rooms?'') (snd (getAvailableTools summaryDownWorld [])))
       = Inr (Some \<lparr>rawContent = [], rawToolCalls = eightGoodCalls\<rparr>, eightGoodCalls)
   \<and> (case processMessage jsRuntime summaryDownWorld 1000 (newAgent (ascii ''P'') None)
              noSessions [] (ascii ''How many rooms?'') None None of
         (resp, ag', sm', tr') \<Rightarrow>
           invoked tr' = [roomEvent 1, roomEvent 2, roomEvent 3, roomEvent 4, roomEvent 5]
           \<and> \<not> success resp
           \<and> response resp = ascii ''Error: LLM Error: timeout''
           \<and> toolsCalled resp = []
           \<and> length (toolsCalled resp) \<noteq> 5)"
  by code_simp

text \<open>
  C3, as stated, fails: with the model backend down, the response text is the error
  message behind \<open>Error: \<close>, not an apology.
\<close>

theorem failure_response_counterexample:
  "\<not> success (fst (processMessage jsRuntime downWorld 1000 (newAgent (ascii ''P'') None)
        noSessions [] (ascii ''hello'') None None))
   \<and> response (fst (processMessage jsRuntime downWorld 1000 (newAgent (ascii ''P'') None)
        noSessions [] (ascii ''hello'') None None)) = ascii ''Error: LLM Error: timeout''
   \<and> response (fst (processMessage jsRuntime downWorld 1000 (newAgent (ascii ''P'') None)
        noSessions [] (ascii ''hello'') None None)) \<noteq> apologyText
   \<and> response (fst (processMessage jsRuntime downWorld 1000 (newAgent (ascii ''P'') None)
        noSessions [] (ascii ''hello'') None None)) \<noteq> sorryVi
   \<and> response (fst (processMessage jsRuntime downWorld 1000 (newAgent (ascii ''P'') None)
        noSessions [] (ascii ''hello'') None None)) \<noteq> sorryEn"
  by code_simp

lemma chat_pass_example:
  "isConversationalMessage jsRuntime (ascii ''hello'')"
  "success (fst (processMessage jsRuntime chatWorld 1000 (newAgent (ascii ''P'') None)
        noSessions [] (ascii ''hello'') None None))"
  "fst (tryProcessMessage jsRuntime downWorld 1000 (newAgent (ascii ''P'') None)
        noSessions [] (ascii ''hello'') None None) = Inl (ascii ''LLM Error: timeout'')"
  by code_simp+

lemma thanks_example:
  "isConversationalMessage jsRuntime (ascii ''C'' @ [7842] @ ascii ''m '' @ [417] @ ascii ''n!'')"
  by code_simp

theorem failure_response_witness:
  "(\<not> success (fst (processMessage jsRuntime downWorld 1000 (newAgent (ascii ''P'') None)
        noSessions [] (ascii ''hello'') None None))
    \<and> response (fst (processMessage jsRuntime downWorld 1000 (newAgent (ascii ''P'') None)
        noSessions [] (ascii ''hello'') None None)) = ascii ''Error: LLM Error: '' @ ascii ''timeout'')
   \<and> fst (processMessage jsRuntime downWorld 1000 (newAgent (ascii ''P'') None)
        noSessions [] (ascii ''hello'') None None)
       = buildResponse 1000 False (ascii ''Error: '' @ ascii ''LLM Error: timeout'') [] [] None None None
   \<and> conversationHistory (fst (snd (processMessage jsRuntime downWorld 1000
        (newAgent (ascii ''P'') None) noSessions [] (ascii ''hello'') None None)))
       = conversationHistory (newAgent (ascii ''P'') None)
   \<and> (\<exists>u a. conversationHistory (fst (snd (processMessage jsRuntime chatWorld 1000
        (newAgent (ascii ''P'') None) noSessions [] (ascii ''hello'') None None)))
       = conversationHistory (newAgent (ascii ''P'') None) @ [u, a])"
proof -
  note t = failure_response [of jsRuntime downWorld 1000 "newAgent (ascii ''P'') None"
      noSessions "[]" "ascii ''hello''" None None "ascii ''timeout''"]
  have down: "\<forall>t r. ollamaChat downWorld t r = Inl (ascii ''timeout'')"
    by (simp add: downWorld_def)
  note d = t [THEN conjunct2, THEN conjunct2, THEN conjunct2, THEN mp, OF down]
  note a = t [THEN conjunct1, THEN spec, THEN mp, OF chat_pass_example(3)]
  note b = t [THEN conjunct2, THEN conjunct1, THEN mp, OF d [THEN conjunct1],
      THEN conjunct2, THEN conjunct2, THEN conjunct2]
  note c = failure_response [of jsRuntime chatWorld 1000 "newAgent (ascii ''P'') None"
      noSessions "[]" "ascii ''hello''" None None "[]",
      THEN conjunct2, THEN conjunct2, THEN conjunct1, THEN mp, OF chat_pass_example(2)]
  show ?thesis by (rule conjI [OF d conjI [OF a conjI [OF b c]]])
qed

text \<open>
  The message \<open>hello\<close> in a world whose model answers \<open>Hi there!\<close>: the trace of the
  pass is the one model call.
\<close>

theorem conversational_no_tools_witness:
  "isConversationalMessage jsRuntime (ascii ''hello'')
   \<and> snd (snd (snd (processMessage jsRuntime chatWorld 1000 (newAgent (ascii ''P'') None)
        noSessions [] (ascii ''hello'') None None)))
       = [] @ [EvChat (conversationalRequest (ascii ''hello''))]
   \<and> toolsCalled (fst (processMessage jsRuntime chatWorld 1000 (newAgent (ascii ''P'') None)
        noSessions [] (ascii ''hello'') None None)) = []
   \<and> success (fst (processMessage jsRuntime chatWorld 1000 (newAgent (ascii ''P'') None)
        noSessions [] (ascii ''hello'') None None))
   \<and> response (fst (processMessage jsRuntime chatWorld 1000 (newAgent (ascii ''P'') None)
        noSessions [] (ascii ''hello'') None None)) = ascii ''Hi there!''"
proof -
  note t = conversational_no_tools [OF chat_pass_example(1), of chatWorld 1000
      "newAgent (ascii ''P'') None" noSessions "[]" None None]
  have o: "ollamaChat chatWorld [] (conversationalRequest (ascii ''hello''))
      = Inr (Some \<lparr>rawContent = ascii ''Hi there!'', rawToolCalls = []\<rparr>)"
    by (simp add: chatWorld_def)
  have ne: "ascii ''Hi there!'' \<noteq> []" by (simp add: ascii_def)
  from t [THEN conjunct2, THEN conjunct2, THEN conjunct2]
  have r: "success (fst (processMessage jsRuntime chatWorld 1000 (newAgent (ascii ''P'') None)
        noSessions [] (ascii ''hello'') None None))
    \<and> response (fst (processMessage jsRuntime chatWorld 1000 (newAgent (ascii ''P'') None)
        noSessions [] (ascii ''hello'') None None)) = ascii ''Hi there!''"
    unfolding o using ne by simp
  show ?thesis
    by (rule conjI [OF chat_pass_example(1) conjI [OF t [THEN conjunct1]
          conjI [OF t [THEN conjunct2, THEN conjunct1] r]]])
qed

end
